theory Spec2Isabelle
  imports Complex_Main "HOL-Library.Sublist"
begin

section \<open>kokomemo: place bookmarks, tabs, search history and place search\<close>

text \<open>
  A shallow embedding of the parts of the application that its specification speaks
  about: the storage module (\<^verbatim>\<open>lib/storage\<close>), the maps module (\<^verbatim>\<open>lib/maps\<close>),
  the search page and search bar, and the interactive map.

  Conventions of the model.
  \<^item> A JavaScript \<^verbatim>\<open>number\<close> is a \<^typ>\<open>real\<close> and the arithmetic is the exact one,
    except in \<open>calculateDistance\<close>: there rounding decides whether the result is a number
    at all, and the arithmetic is the binary64 arithmetic of IEEE 754 with its
    \<^verbatim>\<open>NaN\<close>.
  \<^item> A JavaScript string is a \<^typ>\<open>string\<close>; text outside ASCII is written as its UTF-8
    bytes.
  \<^item> What the environment supplies (the clock, \<^verbatim>\<open>uuidv4()\<close>, the answer of a web API,
    the timer table of the browser) is an argument or a component of the state.
\<close>

subsection \<open>Library functions of the language\<close>

text \<open>
  \<^verbatim>\<open>Array.prototype.sort(cmp)\<close>: the sort is stable, and for a consistent comparator
  the result is ordered by it. The model is the stable insertion sort: an element goes in
  front of the first element that the comparator does not put before it.
\<close>

fun insert_cmp :: "('a \<Rightarrow> 'a \<Rightarrow> real) \<Rightarrow> 'a \<Rightarrow> 'a list \<Rightarrow> 'a list" where
  "insert_cmp cmp x [] = [x]"
| "insert_cmp cmp x (y # ys) =
     (if cmp x y \<le> 0 then x # y # ys else y # insert_cmp cmp x ys)"

definition Array_sort :: "('a \<Rightarrow> 'a \<Rightarrow> real) \<Rightarrow> 'a list \<Rightarrow> 'a list" where
  "Array_sort cmp xs = foldr (insert_cmp cmp) xs []"

text \<open>
  \<^verbatim>\<open>Math.max(...xs)\<close> is \<^verbatim>\<open>-Infinity\<close> for no argument, which is no real number:
  \<open>None\<close> stands for it.
\<close>

fun Math_max :: "real list \<Rightarrow> real option" where
  "Math_max [] = None"
| "Math_max (x # xs) = Some (fold max xs x)"

text \<open>
  \<^verbatim>\<open>String.prototype.trim\<close> removes the white space at both ends. Which characters
  are white space is the language's table; it is the parameter \<open>ws\<close>, and the
  characters are of any type, so that the model does not depend on an encoding.
\<close>

definition trim :: "('c \<Rightarrow> bool) \<Rightarrow> 'c list \<Rightarrow> 'c list" where
  "trim ws s = rev (dropWhile ws (rev (dropWhile ws s)))"

text \<open>The remainder operator \<^verbatim>\<open>%\<close>: the quotient is truncated towards zero.\<close>

definition trunc :: "real \<Rightarrow> int" where
  "trunc x = (if 0 \<le> x then \<lfloor>x\<rfloor> else \<lceil>x\<rceil>)"

definition js_rem :: "real \<Rightarrow> real \<Rightarrow> real" where
  "js_rem x y = x - y * of_int (trunc (x / y))"

subsection \<open>Binary64 numbers\<close>







subsection \<open>The data model (\<^verbatim>\<open>types\<close>)\<close>

record Place =
  id_Place :: string
  name_Place :: string
  memo :: string
  address_Place :: string
  latitude_Place :: real
  longitude_Place :: real
  tabId :: string
  createdAt :: string
  updatedAt :: string

record Tab =
  id_Tab :: string
  name_Tab :: string
  isCustom :: bool
  order :: real

record SearchHistory =
  query_SearchHistory :: string
  placeId_SearchHistory :: "string option"
  timestamp :: string

datatype TravelMode = driving | transit | walking

record AppSettings =
  travelMode :: TravelMode

text \<open>
  The nine default tabs. Their names are Japanese text, given here as UTF-8 bytes.
\<close>

definition DEFAULT_TABS :: "Tab list" where
  "DEFAULT_TABS =
    [\<lparr>id_Tab = ''all'',
       name_Tab =
        [CHR 0xE3, CHR 0x81, CHR 0x99, CHR 0xE3, CHR 0x81, CHR 0xB9,
         CHR 0xE3, CHR 0x81, CHR 0xA6],
       isCustom = False, order = 0\<rparr>,
     \<lparr>id_Tab = ''frequent'',
       name_Tab =
        [CHR 0xE3, CHR 0x82, CHR 0x88, CHR 0xE3, CHR 0x81, CHR 0x8F,
         CHR 0xE8, CHR 0xA1, CHR 0x8C, CHR 0xE3, CHR 0x81, CHR 0x8F],
       isCustom = False, order = 1\<rparr>,
     \<lparr>id_Tab = ''planned'',
       name_Tab =
        [CHR 0xE4, CHR 0xBB, CHR 0x8A, CHR 0xE5, CHR 0xBA, CHR 0xA6,
         CHR 0xE8, CHR 0xA1, CHR 0x8C, CHR 0xE3, CHR 0x81, CHR 0x8F],
       isCustom = False, order = 2\<rparr>,
     \<lparr>id_Tab = ''revisit'',
       name_Tab =
        [CHR 0xE3, CHR 0x81, CHR 0xBE, CHR 0xE3, CHR 0x81, CHR 0x9F,
         CHR 0xE6, CHR 0x9D, CHR 0xA5, CHR 0xE3, CHR 0x82, CHR 0x8B],
       isCustom = False, order = 3\<rparr>,
     \<lparr>id_Tab = ''work'',
       name_Tab =
        [CHR 0xE4, CHR 0xBB, CHR 0x95, CHR 0xE4, CHR 0xBA, CHR 0x8B],
       isCustom = False, order = 4\<rparr>,
     \<lparr>id_Tab = ''rest'',
       name_Tab =
        [CHR 0xE4, CHR 0xBC, CHR 0x91, CHR 0xE6, CHR 0x86, CHR 0xA9,
         CHR 0xE5, CHR 0xA0, CHR 0xB4, CHR 0xE6, CHR 0x89, CHR 0x80],
       isCustom = False, order = 5\<rparr>,
     \<lparr>id_Tab = ''convenience'',
       name_Tab =
        [CHR 0xE3, CHR 0x82, CHR 0xB3, CHR 0xE3, CHR 0x83, CHR 0xB3,
         CHR 0xE3, CHR 0x83, CHR 0x93, CHR 0xE3, CHR 0x83, CHR 0x8B],
       isCustom = False, order = 6\<rparr>,
     \<lparr>id_Tab = ''toilet'',
       name_Tab =
        [CHR 0xE3, CHR 0x83, CHR 0x88, CHR 0xE3, CHR 0x82, CHR 0xA4,
         CHR 0xE3, CHR 0x83, CHR 0xAC],
       isCustom = False, order = 7\<rparr>,
     \<lparr>id_Tab = ''other'',
       name_Tab =
        [CHR 0xE3, CHR 0x81, CHR 0x9D, CHR 0xE3, CHR 0x81, CHR 0xAE,
         CHR 0xE4, CHR 0xBB, CHR 0x96],
       isCustom = False, order = 8\<rparr>]"

definition DEFAULT_SETTINGS :: AppSettings where
  "DEFAULT_SETTINGS = \<lparr>travelMode = driving\<rparr>"

subsection \<open>Browser storage (\<^verbatim>\<open>lib/storage\<close>)\<close>

text \<open>
  \<^verbatim>\<open>localStorage\<close> keeps one string under each key. The module only ever tests a
  string for being empty and hands it to \<^verbatim>\<open>JSON.parse\<close>, so a stored string is
  one of three things: the empty string, a text that \<^verbatim>\<open>JSON.parse\<close> rejects with a
  \<^verbatim>\<open>SyntaxError\<close>, or the JSON text of a value. \<^verbatim>\<open>JSON.stringify\<close> writes the
  JSON text of its argument, and parsing that text gives the value back. The four keys
  carry the TypeScript types that the module asserts for them.
\<close>

datatype 'a item = Empty_Text | Invalid_Text | Json_Text 'a

datatype js_error = SyntaxError

definition JSON_parse :: "'a item \<Rightarrow> js_error + 'a" where
  "JSON_parse text = (case text of Json_Text v \<Rightarrow> Inr v | _ \<Rightarrow> Inl SyntaxError)"

definition JSON_stringify :: "'a \<Rightarrow> 'a item" where
  "JSON_stringify v = Json_Text v"

text \<open>\<open>None\<close> under a key: \<^verbatim>\<open>getItem\<close> answers \<^verbatim>\<open>null\<close>.\<close>

record Storage =
  kokomemo_places :: "Place list item option"
  kokomemo_tabs :: "Tab list item option"
  kokomemo_search_history :: "SearchHistory list item option"
  kokomemo_settings :: "AppSettings item option"

text \<open>
  The state of the module: the storage, and the array \<^verbatim>\<open>DEFAULT_TABS\<close>. The array is
  a module constant, but \<^verbatim>\<open>getTabs\<close> hands out the array itself and \<^verbatim>\<open>addCustomTab\<close>
  pushes onto whatever \<^verbatim>\<open>getTabs\<close> returned, so its content can grow: it is the nine
  declared tabs followed by the tabs pushed so far.
\<close>

record app =
  localStorage :: Storage
  pushed :: "Tab list"

definition DEFAULT_TABS_array :: "app \<Rightarrow> Tab list" where
  "DEFAULT_TABS_array s = DEFAULT_TABS @ pushed s"

text \<open>An array of tabs in the program: the shared array, or one of the caller's own.\<close>

datatype TabsRef = The_DEFAULT_TABS | Own "Tab list"

definition deref :: "app \<Rightarrow> TabsRef \<Rightarrow> Tab list" where
  "deref s r = (case r of The_DEFAULT_TABS \<Rightarrow> DEFAULT_TABS_array s | Own ts \<Rightarrow> ts)"

definition Array_push :: "TabsRef \<Rightarrow> Tab \<Rightarrow> app \<Rightarrow> TabsRef \<times> app" where
  "Array_push r t s =
     (case r of
        The_DEFAULT_TABS \<Rightarrow> (The_DEFAULT_TABS, s\<lparr>pushed := pushed s @ [t]\<rparr>)
      | Own ts \<Rightarrow> (Own (ts @ [t]), s))"

text \<open>
  \<^verbatim>\<open>safeJsonParse(key, defaultValue)\<close>; the first argument here is what
  \<^verbatim>\<open>localStorage.getItem(key)\<close> answered. An empty string is falsy and never parsed;
  the \<^verbatim>\<open>catch\<close> turns the error of the parser into the default.
\<close>

definition safeJsonParse :: "'a item option \<Rightarrow> 'a \<Rightarrow> 'a" where
  "safeJsonParse got defaultValue =
     (case got of
        None \<Rightarrow> defaultValue
      | Some Empty_Text \<Rightarrow> defaultValue
      | Some text \<Rightarrow>
          (case JSON_parse text of Inr v \<Rightarrow> v | Inl e \<Rightarrow> defaultValue))"

definition getPlaces :: "app \<Rightarrow> Place list" where
  "getPlaces s = safeJsonParse (kokomemo_places (localStorage s)) []"

text \<open>
  The argument of \<^verbatim>\<open>savePlace\<close> is a place without \<^verbatim>\<open>id\<close>, \<^verbatim>\<open>createdAt\<close> and
  \<^verbatim>\<open>updatedAt\<close>. \<open>uuid\<close> is what \<^verbatim>\<open>uuidv4()\<close> returns in this call and \<open>now\<close>
  what \<^verbatim>\<open>new Date().toISOString()\<close> returns.
\<close>

record NewPlace =
  name_New :: string
  memo_New :: string
  address_New :: string
  latitude_New :: real
  longitude_New :: real
  tabId_New :: string

definition savePlace :: "NewPlace \<Rightarrow> string \<Rightarrow> string \<Rightarrow> app \<Rightarrow> Place \<times> app" where
  "savePlace place uuid now s =
     (let places = getPlaces s;
          newPlace = \<lparr>id_Place = uuid, name_Place = name_New place, memo = memo_New place,
            address_Place = address_New place, latitude_Place = latitude_New place,
            longitude_Place = longitude_New place, tabId = tabId_New place,
            createdAt = now, updatedAt = now\<rparr>;
          places = places @ [newPlace]
      in (newPlace,
          s\<lparr>localStorage := (localStorage s)
              \<lparr>kokomemo_places := Some (JSON_stringify places)\<rparr>\<rparr>))"

definition getTabs :: "app \<Rightarrow> TabsRef \<times> app" where
  "getTabs s =
     (let storedTabs = safeJsonParse (kokomemo_tabs (localStorage s)) []
      in if length storedTabs = 0
         then (The_DEFAULT_TABS,
               s\<lparr>localStorage := (localStorage s)
                   \<lparr>kokomemo_tabs := Some (JSON_stringify (DEFAULT_TABS_array s))\<rparr>\<rparr>)
         else
           let existingIds = set (map id_Tab storedTabs);
               newDefaultTabs = filter (\<lambda>t. id_Tab t \<notin> existingIds) (DEFAULT_TABS_array s)
           in if length newDefaultTabs > 0
              then
                let mergedTabs =
                      Array_sort (\<lambda>a b. order a - order b) (storedTabs @ newDefaultTabs)
                in (Own mergedTabs,
                    s\<lparr>localStorage := (localStorage s)
                        \<lparr>kokomemo_tabs := Some (JSON_stringify mergedTabs)\<rparr>\<rparr>)
              else (Own storedTabs, s))"

text \<open>
  \<^verbatim>\<open>addCustomTab(name)\<close>. The order of the new tab is \<^verbatim>\<open>Math.max(...) + 1\<close>; over
  no tab at all that is \<^verbatim>\<open>-Infinity\<close>, for which the model has no number and answers
  \<open>Inl Minus_Infinity\<close>. (\<open>getTabs\<close> never returns an empty array, see
  \<open>getTabs_not_empty\<close> below, so the case does not arise.) The result \<open>None\<close> is
  \<^verbatim>\<open>null\<close>.
\<close>

datatype outside_model = Minus_Infinity

definition addCustomTab :: "string \<Rightarrow> string \<Rightarrow> app \<Rightarrow> outside_model + (Tab option \<times> app)" where
  "addCustomTab name uuid s =
     (let (tabs, s1) = getTabs s;
          customTabs = filter isCustom (deref s1 tabs)
      in if length customTabs \<ge> 5 then Inr (None, s1)
         else
           case Math_max (map order (deref s1 tabs)) of
             None \<Rightarrow> Inl Minus_Infinity
           | Some maxOrder \<Rightarrow>
               let newTab = \<lparr>id_Tab = uuid, name_Tab = name, isCustom = True,
                              order = maxOrder + 1\<rparr>;
                   (tabs, s2) = Array_push tabs newTab s1
               in Inr (Some newTab,
                       s2\<lparr>localStorage := (localStorage s2)
                           \<lparr>kokomemo_tabs := Some (JSON_stringify (deref s2 tabs))\<rparr>\<rparr>))"

definition getSearchHistory :: "app \<Rightarrow> SearchHistory list" where
  "getSearchHistory s = safeJsonParse (kokomemo_search_history (localStorage s)) []"

definition addSearchHistory :: "string \<Rightarrow> string option \<Rightarrow> string \<Rightarrow> app \<Rightarrow> app" where
  "addSearchHistory query placeId now s =
     (let history = getSearchHistory s;
          newEntry = \<lparr>query_SearchHistory = query, placeId_SearchHistory = placeId,
                       timestamp = now\<rparr>;
          filtered = filter (\<lambda>h. query_SearchHistory h \<noteq> query) history;
          filtered = newEntry # filtered;
          limited = take 20 filtered
      in s\<lparr>localStorage := (localStorage s)
            \<lparr>kokomemo_search_history := Some (JSON_stringify limited)\<rparr>\<rparr>)"

definition clearSearchHistory :: "app \<Rightarrow> app" where
  "clearSearchHistory s =
     s\<lparr>localStorage := (localStorage s)
        \<lparr>kokomemo_search_history := Some (JSON_stringify [])\<rparr>\<rparr>"

definition getSettings :: "app \<Rightarrow> AppSettings" where
  "getSettings s = safeJsonParse (kokomemo_settings (localStorage s)) DEFAULT_SETTINGS"

text \<open>A stored string that the readers cannot use: none at all, or one the parser rejects.\<close>

definition unreadable :: "'a item option \<Rightarrow> bool" where
  "unreadable got =
     (case got of
        None \<Rightarrow> True
      | Some text \<Rightarrow> (case JSON_parse text of Inl e \<Rightarrow> True | Inr v \<Rightarrow> False))"

text \<open>
  The states of the module. On a first start nothing is stored. From there the state
  changes by calls of the functions of the module. Of these, \<^verbatim>\<open>updatePlace\<close>,
  \<^verbatim>\<open>deletePlace\<close>, \<^verbatim>\<open>updateTab\<close>, \<^verbatim>\<open>deleteTab\<close> and \<^verbatim>\<open>updateSettings\<close> are not
  singled out: they write the places, the tabs and the settings, and \<open>Other_call\<close>
  stands for a call of any of them, with the state that it leaves; of the state before
  it keeps the search history, which \<open>addSearchHistory\<close> and \<open>clearSearchHistory\<close>
  write and nothing else in the application.
\<close>

definition fresh_app :: app where
  "fresh_app =
     \<lparr>localStorage =
        \<lparr>kokomemo_places = None, kokomemo_tabs = None,
         kokomemo_search_history = None, kokomemo_settings = None\<rparr>,
      pushed = []\<rparr>"

datatype storage_call =
    SavePlace NewPlace string string
  | GetTabs
  | AddCustomTab string string
  | AddSearchHistory string "string option" string
  | ClearSearchHistory
  | Other_call app

definition storage_step :: "storage_call \<Rightarrow> app \<Rightarrow> app" where
  "storage_step call s =
     (case call of
        SavePlace input uuid now \<Rightarrow> snd (savePlace input uuid now s)
      | GetTabs \<Rightarrow> snd (getTabs s)
      | AddCustomTab name uuid \<Rightarrow>
          (case addCustomTab name uuid s of Inl e \<Rightarrow> s | Inr (t, s') \<Rightarrow> s')
      | AddSearchHistory q placeId now \<Rightarrow> addSearchHistory q placeId now s
      | ClearSearchHistory \<Rightarrow> clearSearchHistory s
      | Other_call left \<Rightarrow>
          left\<lparr>localStorage := (localStorage left)
            \<lparr>kokomemo_search_history := kokomemo_search_history (localStorage s)\<rparr>\<rparr>)"

definition app_after :: "storage_call list \<Rightarrow> app" where
  "app_after calls = fold storage_step calls fresh_app"

subsection \<open>Maps (\<^verbatim>\<open>lib/maps\<close>)\<close>

text \<open>
  \<^verbatim>\<open>openNavigation\<close> builds the address with a template literal. How a number is
  printed is the language's \<^verbatim>\<open>Number::toString\<close>, the parameter \<open>toString\<close>. An
  absent third argument is \<open>None\<close>. The result is the call of \<^verbatim>\<open>window.open\<close>: the
  address and the target.
\<close>

definition travelMode_text :: "TravelMode \<Rightarrow> string" where
  "travelMode_text m =
     (case m of driving \<Rightarrow> ''driving'' | transit \<Rightarrow> ''transit'' | walking \<Rightarrow> ''walking'')"

definition openNavigation ::
  "(real \<Rightarrow> string) \<Rightarrow> real \<Rightarrow> real \<Rightarrow> TravelMode option \<Rightarrow> string \<times> string" where
  "openNavigation toString latitude longitude travelMode_arg =
     (let travelMode = (case travelMode_arg of None \<Rightarrow> driving | Some m \<Rightarrow> m);
          url = ''https://www.google.com/maps/dir/?api=1&destination='' @ toString latitude
                @ '','' @ toString longitude @ ''&travelmode='' @ travelMode_text travelMode
      in (url, ''_blank''))"

record LatLng =
  lat :: real
  lng :: real

record NearbyPlaceResult =
  placeId_Nearby :: string
  name_Nearby :: string
  address_Nearby :: string
  latitude_Nearby :: real
  longitude_Nearby :: real
  distanceMeters_Nearby :: real

record AutocompleteResult =
  placeId_Auto :: string
  mainText :: string
  secondaryText :: string
  distanceMeters_Auto :: "real option"


text \<open>
  The quantity \<open>a\<close> of \<open>calculateDistance\<close> in exact arithmetic, for angles in radians:
  the haversine of the central angle between the two points.
\<close>

definition haversine_term :: "real \<Rightarrow> real \<Rightarrow> real \<Rightarrow> real \<Rightarrow> real" where
  "haversine_term p1 l1 p2 l2 =
     sin ((p2 - p1) / 2) ^ 2 + cos p1 * cos p2 * sin ((l2 - l1) / 2) ^ 2"

subsection \<open>The search page (\<^verbatim>\<open>pages/SearchPage\<close>)\<close>

record Suggestion =
  text_Sug :: string
  description_Sug :: "string option"
  placeId_Sug :: string
  distanceMeters_Sug :: "real option"

record PlaceResult =
  placeId_Res :: string
  name_Res :: string
  address_Res :: string
  postalCode :: "string option"
  latitude_Res :: real
  longitude_Res :: real

text \<open>
  Steps 3 and 4 of \<^verbatim>\<open>executeSearch\<close>: the two result lists become one list of
  suggestions.
\<close>

definition mergeSuggestions ::
  "NearbyPlaceResult list \<Rightarrow> AutocompleteResult list \<Rightarrow> Suggestion list" where
  "mergeSuggestions nearbyResults autocompleteResults =
     (let nearbyIds = set (map placeId_Nearby nearbyResults);
          nearbySuggestions =
            map (\<lambda>r. \<lparr>text_Sug = name_Nearby r, description_Sug = Some (address_Nearby r),
                       placeId_Sug = placeId_Nearby r,
                       distanceMeters_Sug = Some (distanceMeters_Nearby r)\<rparr>) nearbyResults;
          autocompleteSuggestions =
            map (\<lambda>r. \<lparr>text_Sug = mainText r, description_Sug = Some (secondaryText r),
                       placeId_Sug = placeId_Auto r,
                       distanceMeters_Sug = distanceMeters_Auto r\<rparr>)
              (filter (\<lambda>r. placeId_Auto r \<notin> nearbyIds) autocompleteResults)
      in nearbySuggestions @ autocompleteSuggestions)"

text \<open>
  The timers of the page. \<^verbatim>\<open>window.setTimeout\<close> answers a handle greater than zero
  that it has not given out before; the table keeps, for each pending timer, its handle,
  its delay in milliseconds and the query that its callback will search for.
\<close>

record Timer =
  handle :: nat
  delay :: nat
  search_arg :: string

record SearchPage =
  query_Page :: string
  selectedPlace :: "PlaceResult option"
  suggestions :: "Suggestion list"
  isSearching :: bool
  debounceRef :: "nat option"
  timers :: "Timer list"
  handles_given :: nat

definition setTimeout_Page :: "string \<Rightarrow> nat \<Rightarrow> SearchPage \<Rightarrow> nat \<times> SearchPage" where
  "setTimeout_Page arg ms page =
     (let h = Suc (handles_given page)
      in (h, page\<lparr>timers := timers page @ [\<lparr>handle = h, delay = ms, search_arg = arg\<rparr>],
                  handles_given := h\<rparr>))"

definition clearTimeout_Page :: "nat \<Rightarrow> SearchPage \<Rightarrow> SearchPage" where
  "clearTimeout_Page h page = page\<lparr>timers := filter (\<lambda>t. handle t \<noteq> h) (timers page)\<rparr>"

text \<open>
  \<^verbatim>\<open>executeSearch(searchQuery)\<close> awaits the two searches and reads
  \<^verbatim>\<open>queryRef.current\<close> after each; what it finds there are the arguments
  \<open>queryRef_first\<close> and \<open>queryRef_second\<close>. A search that threw is \<open>Inl\<close>. The
  \<^verbatim>\<open>finally\<close> clause runs on every path through the \<^verbatim>\<open>try\<close>. Nothing between
  the two inner \<^verbatim>\<open>try\<close> blocks and the end can throw on lists of these types, so the
  outer \<^verbatim>\<open>catch\<close> has no branch here.
\<close>

record search_env =
  origin :: "LatLng option"
  autocomplete_answer :: "js_error + AutocompleteResult list"
  queryRef_first :: string
  nearby_answer :: "js_error + NearbyPlaceResult list"
  queryRef_second :: string

definition executeSearch :: "string \<Rightarrow> string \<Rightarrow> search_env \<Rightarrow> SearchPage \<Rightarrow> SearchPage" where
  "executeSearch GOOGLE_MAPS_API_KEY searchQuery env page =
     (if GOOGLE_MAPS_API_KEY = [] then page\<lparr>isSearching := False\<rparr>
      else
        let autocompleteResults =
              (case autocomplete_answer env of Inl e \<Rightarrow> [] | Inr rs \<Rightarrow> rs)
        in if queryRef_first env \<noteq> searchQuery then page\<lparr>isSearching := False\<rparr>
           else
             let nearbyResults =
                   (case origin env of
                      None \<Rightarrow> []
                    | Some o_arg \<Rightarrow> (case nearby_answer env of Inl e \<Rightarrow> [] | Inr rs \<Rightarrow> rs))
             in if queryRef_second env \<noteq> searchQuery then page\<lparr>isSearching := False\<rparr>
                else page\<lparr>suggestions := mergeSuggestions nearbyResults autocompleteResults,
                          isSearching := False\<rparr>)"

text \<open>
  \<^verbatim>\<open>handleInputChange(value)\<close>. A handle is truthy when it is not zero.
\<close>

definition handleInputChange :: "(char \<Rightarrow> bool) \<Rightarrow> string \<Rightarrow> SearchPage \<Rightarrow> SearchPage" where
  "handleInputChange ws value page =
     (let page = page\<lparr>query_Page := value, selectedPlace := None\<rparr>;
          page = (case debounceRef page of
                    None \<Rightarrow> page
                  | Some h \<Rightarrow> if h \<noteq> 0 then clearTimeout_Page h page else page)
      in if trim ws value = []
         then page\<lparr>suggestions := [], isSearching := False\<rparr>
         else
           let page = page\<lparr>isSearching := True\<rparr>;
               (h, page) = setTimeout_Page value 800 page
           in page\<lparr>debounceRef := Some h\<rparr>)"

text \<open>
  \<^verbatim>\<open>handleQuickSearch(searchTerm)\<close> starts the search at once; the search itself
  finishes later (\<open>SearchFinishes\<close> below).
\<close>

definition handleQuickSearch :: "string \<Rightarrow> SearchPage \<Rightarrow> SearchPage" where
  "handleQuickSearch searchTerm page =
     (let page = page\<lparr>query_Page := searchTerm, selectedPlace := None, suggestions := [],
                        isSearching := True\<rparr>
      in case debounceRef page of
           None \<Rightarrow> page
         | Some h \<Rightarrow> if h \<noteq> 0 then clearTimeout_Page h page else page)"

text \<open>
  What can happen to the page: the user changes the input, taps a quick search, a pending
  timer runs out (the browser drops it from the table and calls it), a search that was
  started finishes.
\<close>

datatype page_event =
    InputChange string
  | QuickSearch string
  | TimerFires nat
  | SearchFinishes string search_env

definition page_step ::
  "(char \<Rightarrow> bool) \<Rightarrow> string \<Rightarrow> page_event \<Rightarrow> SearchPage \<Rightarrow> SearchPage" where
  "page_step ws key ev page =
     (case ev of
        InputChange value \<Rightarrow> handleInputChange ws value page
      | QuickSearch searchTerm \<Rightarrow> handleQuickSearch searchTerm page
      | TimerFires h \<Rightarrow> clearTimeout_Page h page
      | SearchFinishes searchQuery env \<Rightarrow> executeSearch key searchQuery env page)"

definition initial_page :: SearchPage where
  "initial_page =
     \<lparr>query_Page = [], selectedPlace = None, suggestions = [], isSearching = False,
      debounceRef = None, timers = [], handles_given = 0\<rparr>"

definition page_after :: "(char \<Rightarrow> bool) \<Rightarrow> string \<Rightarrow> page_event list \<Rightarrow> SearchPage" where
  "page_after ws key evs = fold (page_step ws key) evs initial_page"

text \<open>
  The pending timers are at most the one that \<open>debounceRef\<close> names, and no handle in
  the table is newer than the last one given out.
\<close>

definition debounced :: "SearchPage \<Rightarrow> bool" where
  "debounced page =
     ((\<forall>t \<in> set (timers page). debounceRef page = Some (handle t)) \<and>
      distinct (map handle (timers page)) \<and>
      (\<forall>t \<in> set (timers page). 0 < handle t \<and> handle t \<le> handles_given page))"

subsection \<open>The search bar (\<^verbatim>\<open>components/SearchBar\<close>)\<close>

text \<open>
  A prediction of the Places library, as far as the search bar reads it.
\<close>

record Prediction =
  place_id :: string
  main_text :: string
  secondary_text :: string
  distance_meters :: "real option"

datatype suggestion_type = history | place | nearby

record BarSuggestion =
  type_Bar :: suggestion_type
  text_Bar :: string
  description_Bar :: "string option"
  placeId_Bar :: "string option"
  distanceMeters_Bar :: "real option"

text \<open>Step 3 of the timer's callback, and the list it hands to \<^verbatim>\<open>setSuggestions\<close>.\<close>

definition mergeSuggestions_Bar ::
  "NearbyPlaceResult list \<Rightarrow> Prediction list \<Rightarrow> BarSuggestion list" where
  "mergeSuggestions_Bar nearbyResults predictions =
     (let nearbyIds = set (map placeId_Nearby nearbyResults);
          nearbySuggestions =
            map (\<lambda>r. \<lparr>type_Bar = nearby, text_Bar = name_Nearby r,
                       description_Bar = Some (address_Nearby r),
                       placeId_Bar = Some (placeId_Nearby r),
                       distanceMeters_Bar = Some (distanceMeters_Nearby r)\<rparr>) nearbyResults;
          placeSuggestions =
            map (\<lambda>p. \<lparr>type_Bar = place, text_Bar = main_text p,
                       description_Bar = Some (secondary_text p),
                       placeId_Bar = Some (place_id p),
                       distanceMeters_Bar = distance_meters p\<rparr>)
              (filter (\<lambda>p. place_id p \<notin> nearbyIds) predictions)
      in nearbySuggestions @ placeSuggestions)"

text \<open>
  The state of the search bar. The search runs in an effect that depends on the query:
  when a render changed the query, the cleanup that the previous run of the effect
  returned is called, then the effect runs again. \<open>cleanup_timer\<close> is the timer that
  this cleanup clears, \<open>None\<close> when the previous run returned no cleanup.
\<close>

record SearchBar =
  query_Bar :: string
  isReady :: bool
  suggestions_Bar :: "BarSuggestion list"
  isSearching_Bar :: bool
  cleanup_timer :: "nat option"
  timers_Bar :: "Timer list"
  handles_given_Bar :: nat

definition setTimeout_Bar :: "string \<Rightarrow> nat \<Rightarrow> SearchBar \<Rightarrow> nat \<times> SearchBar" where
  "setTimeout_Bar arg ms bar =
     (let h = Suc (handles_given_Bar bar)
      in (h, bar\<lparr>timers_Bar := timers_Bar bar @ [\<lparr>handle = h, delay = ms, search_arg = arg\<rparr>],
                 handles_given_Bar := h\<rparr>))"

definition clearTimeout_Bar :: "nat \<Rightarrow> SearchBar \<Rightarrow> SearchBar" where
  "clearTimeout_Bar h bar = bar\<lparr>timers_Bar := filter (\<lambda>t. handle t \<noteq> h) (timers_Bar bar)\<rparr>"

definition search_effect :: "(char \<Rightarrow> bool) \<Rightarrow> SearchBar \<Rightarrow> SearchBar" where
  "search_effect ws bar =
     (if trim ws (query_Bar bar) = []
      then bar\<lparr>suggestions_Bar := [], isSearching_Bar := False, cleanup_timer := None\<rparr>
      else if \<not> isReady bar then bar\<lparr>cleanup_timer := None\<rparr>
      else
        let bar = bar\<lparr>isSearching_Bar := True\<rparr>;
            (timer, bar) = setTimeout_Bar (query_Bar bar) 800 bar
        in bar\<lparr>cleanup_timer := Some timer\<rparr>)"

definition effect_cleanup :: "SearchBar \<Rightarrow> SearchBar" where
  "effect_cleanup bar =
     (case cleanup_timer bar of None \<Rightarrow> bar | Some timer \<Rightarrow> clearTimeout_Bar timer bar)"

text \<open>
  \<^verbatim>\<open>handleInputChange(value)\<close> of the search bar is \<^verbatim>\<open>setQuery(value)\<close>. Setting a
  state to the value it has changes nothing and runs no effect.
\<close>

definition handleInputChange_Bar :: "(char \<Rightarrow> bool) \<Rightarrow> string \<Rightarrow> SearchBar \<Rightarrow> SearchBar" where
  "handleInputChange_Bar ws value bar =
     (if value = query_Bar bar then bar
      else search_effect ws (effect_cleanup (bar\<lparr>query_Bar := value\<rparr>)))"

text \<open>
  What can happen to the search bar: the user changes the input, another dependency of
  the effect changes (the Places service becomes ready or is lost, a position arrives) so
  that the effect runs again, a pending timer runs out, a search that was started sets
  its suggestions and ends.
\<close>

datatype bar_event =
    BarInput string
  | BarDependency bool
  | BarTimerFires nat
  | BarSearchFinishes "BarSuggestion list"

definition bar_step :: "(char \<Rightarrow> bool) \<Rightarrow> bar_event \<Rightarrow> SearchBar \<Rightarrow> SearchBar" where
  "bar_step ws ev bar =
     (case ev of
        BarInput value \<Rightarrow> handleInputChange_Bar ws value bar
      | BarDependency ready \<Rightarrow> search_effect ws (effect_cleanup (bar\<lparr>isReady := ready\<rparr>))
      | BarTimerFires h \<Rightarrow> clearTimeout_Bar h bar
      | BarSearchFinishes found \<Rightarrow> bar\<lparr>suggestions_Bar := found, isSearching_Bar := False\<rparr>)"

definition initial_bar :: SearchBar where
  "initial_bar =
     \<lparr>query_Bar = [], isReady = False, suggestions_Bar = [], isSearching_Bar = False,
      cleanup_timer = None, timers_Bar = [], handles_given_Bar = 0\<rparr>"

definition bar_after :: "(char \<Rightarrow> bool) \<Rightarrow> bar_event list \<Rightarrow> SearchBar" where
  "bar_after ws evs = fold (bar_step ws) evs initial_bar"

definition debounced_Bar :: "SearchBar \<Rightarrow> bool" where
  "debounced_Bar bar =
     ((\<forall>t \<in> set (timers_Bar bar). cleanup_timer bar = Some (handle t)) \<and>
      distinct (map handle (timers_Bar bar)) \<and>
      (\<forall>t \<in> set (timers_Bar bar). handle t \<le> handles_given_Bar bar))"

subsection \<open>The interactive map (\<^verbatim>\<open>components/InteractiveMap\<close>)\<close>

text \<open>
  \<open>pending_frame\<close>: a call of \<^verbatim>\<open>animate\<close> is requested for the next animation
  frame.
\<close>

record InteractiveMap =
  smoothLocation :: "LatLng option"
  targetLocationRef :: "LatLng option"
  pending_frame :: bool
  heading :: "real option"
  hasOrientationSensor :: bool
  absoluteSupported :: bool

text \<open>
  The function that \<^verbatim>\<open>animate\<close> passes to \<^verbatim>\<open>setSmoothLocation\<close>: from the current
  smoothed position to the next one, and whether it requested another frame.
\<close>

definition smooth_update :: "LatLng \<Rightarrow> LatLng option \<Rightarrow> LatLng \<times> bool" where
  "smooth_update target current_arg =
     (case current_arg of
        None \<Rightarrow> (target, False)
      | Some current \<Rightarrow>
          let factor = 0.15;
              newLat = lat current + (lat target - lat current) * factor;
              newLng = lng current + (lng target - lng current) * factor;
              dist = \<bar>lat target - newLat\<bar> + \<bar>lng target - newLng\<bar>
          in if dist < 0.0000001 then (target, False)
             else (\<lparr>lat = newLat, lng = newLng\<rparr>, True))"

text \<open>\<^verbatim>\<open>animate\<close>, called for a frame: the request it answers is used up.\<close>

definition animate :: "InteractiveMap \<Rightarrow> InteractiveMap" where
  "animate m =
     (case targetLocationRef m of
        None \<Rightarrow> m\<lparr>pending_frame := False\<rparr>
      | Some target \<Rightarrow>
          let (new, again) = smooth_update target (smoothLocation m)
          in m\<lparr>smoothLocation := Some new, pending_frame := again\<rparr>)"

text \<open>
  The effect on a new position of the device: the first position is taken as it is;
  after that the pending frame is cancelled and a new one requested.
\<close>

definition location_effect :: "LatLng \<Rightarrow> InteractiveMap \<Rightarrow> InteractiveMap" where
  "location_effect currentLocation m =
     (let m = m\<lparr>targetLocationRef := Some currentLocation\<rparr>
      in case smoothLocation m of
           None \<Rightarrow> m\<lparr>smoothLocation := Some currentLocation, pending_frame := False\<rparr>
         | Some l \<Rightarrow> m\<lparr>pending_frame := True\<rparr>)"

text \<open>\<^verbatim>\<open>handleAbsoluteOrientation(event)\<close>; the argument is \<^verbatim>\<open>event.alpha\<close>.\<close>

definition handleAbsoluteOrientation :: "real option \<Rightarrow> InteractiveMap \<Rightarrow> InteractiveMap" where
  "handleAbsoluteOrientation alpha m =
     (let m = m\<lparr>absoluteSupported := True\<rparr>
      in case alpha of
           None \<Rightarrow> m
         | Some a \<Rightarrow> m\<lparr>heading := Some (js_rem (360 - a) 360), hasOrientationSensor := True\<rparr>)"

subsection \<open>Example states and inputs\<close>

text \<open>A white-space table for the examples: the space character.\<close>

definition is_space :: "char \<Rightarrow> bool" where
  "is_space c = (c = CHR '' '')"

text \<open>A storage whose strings cannot be parsed.\<close>

definition garbled_app :: app where
  "garbled_app =
     \<lparr>localStorage =
        \<lparr>kokomemo_places = Some Invalid_Text, kokomemo_tabs = Some Invalid_Text,
         kokomemo_search_history = Some Empty_Text, kokomemo_settings = Some Invalid_Text\<rparr>,
      pushed = []\<rparr>"

text \<open>
  A storage written by a release that had eight default tabs, the last of today's nine
  missing, with five custom tabs of the user.
\<close>

definition custom_tab :: "string \<Rightarrow> real \<Rightarrow> Tab" where
  "custom_tab i n = \<lparr>id_Tab = i, name_Tab = i, isCustom = True, order = n\<rparr>"

definition upgraded_app :: app where
  "upgraded_app =
     \<lparr>localStorage =
        \<lparr>kokomemo_places = None,
         kokomemo_tabs = Some (Json_Text (butlast DEFAULT_TABS @
           [custom_tab ''c1'' 8, custom_tab ''c2'' 9, custom_tab ''c3'' 10,
            custom_tab ''c4'' 11, custom_tab ''c5'' 12])),
         kokomemo_search_history = None,
         kokomemo_settings = None\<rparr>,
      pushed = []\<rparr>"

definition merged_tabs :: "Tab list" where
  "merged_tabs = butlast DEFAULT_TABS @
     [custom_tab ''c1'' 8, last DEFAULT_TABS, custom_tab ''c2'' 9, custom_tab ''c3'' 10,
      custom_tab ''c4'' 11, custom_tab ''c5'' 12]"

definition home :: NewPlace where
  "home = \<lparr>name_New = ''home'', memo_New = [], address_New = ''1 Main St'',
            latitude_New = 35, longitude_New = 139, tabId_New = ''frequent''\<rparr>"

text \<open>Search results that are known by their place id alone.\<close>

definition nearby_result :: "string \<Rightarrow> real \<Rightarrow> NearbyPlaceResult" where
  "nearby_result i d =
     \<lparr>placeId_Nearby = i, name_Nearby = i, address_Nearby = [], latitude_Nearby = 0,
      longitude_Nearby = 0, distanceMeters_Nearby = d\<rparr>"

definition auto_result :: "string \<Rightarrow> AutocompleteResult" where
  "auto_result i =
     \<lparr>placeId_Auto = i, mainText = i, secondaryText = [], distanceMeters_Auto = None\<rparr>"

definition prediction :: "string \<Rightarrow> Prediction" where
  "prediction i = \<lparr>place_id = i, main_text = i, secondary_text = [], distance_meters = None\<rparr>"

text \<open>The map before any position or orientation has arrived.\<close>

definition initial_map :: InteractiveMap where
  "initial_map =
     \<lparr>smoothLocation = None, targetLocationRef = None, pending_frame = False,
      heading = None, hasOrientationSensor = False, absoluteSupported = False\<rparr>"



section \<open>Properties\<close>

subsection \<open>The library functions\<close>

lemma set_insert_cmp: "set (insert_cmp cmp x xs) = insert x (set xs)"
  by (induction xs) auto

lemma set_Array_sort: "set (Array_sort cmp xs) = set xs"
  by (induction xs) (auto simp: Array_sort_def set_insert_cmp)

lemma length_insert_cmp: "length (insert_cmp cmp x xs) = Suc (length xs)"
  by (induction xs) auto

lemma length_Array_sort: "length (Array_sort cmp xs) = length xs"
  by (induction xs) (auto simp: Array_sort_def length_insert_cmp)

text \<open>A comparator that subtracts keys puts the list in the order of the keys.\<close>

lemma sorted_insert_cmp:
  "sorted (map f xs) \<Longrightarrow> sorted (map f (insert_cmp (\<lambda>a b. f a - f b) x xs))"
  by (induction xs) (auto simp: set_insert_cmp)

lemma sorted_Array_sort: "sorted (map f (Array_sort (\<lambda>a b. f a - f b) xs))"
  by (induction xs) (auto simp: Array_sort_def sorted_insert_cmp)

lemma Math_max_Some:
  assumes "Math_max xs = Some m"
  shows "m \<in> set xs \<and> (\<forall>x \<in> set xs. x \<le> m)"
proof (cases xs)
  case Nil
  with assms show ?thesis by simp
next
  case (Cons y ys)
  with assms have "m = Max (set (y # ys))"
    using Max.set_eq_fold [of y ys] by simp
  then show ?thesis
    unfolding Cons using Max_in [of "set (y # ys)"] Max_ge [of "set (y # ys)"] by auto
qed

lemma Math_max_not_empty: "xs \<noteq> [] \<Longrightarrow> \<exists>m. Math_max xs = Some m"
  by (cases xs) auto

text \<open>A string trims to nothing exactly when it is empty or all white space.\<close>

lemma trim_empty_iff: "trim ws s = [] \<longleftrightarrow> (\<forall>c \<in> set s. ws c)"
proof
  assume "trim ws s = []"
  then have "dropWhile ws (rev (dropWhile ws s)) = []"
    by (simp add: trim_def)
  then have "\<forall>c \<in> set (rev (dropWhile ws s)). ws c"
    by (metis dropWhile_eq_Nil_conv)
  then have "\<forall>c \<in> set (dropWhile ws s). ws c"
    by simp
  then have "dropWhile ws s = []"
    by (metis hd_dropWhile hd_in_set)
  then show "\<forall>c \<in> set s. ws c"
    by (induction s) (simp_all split: if_splits)
next
  assume "\<forall>c \<in> set s. ws c"
  then have "dropWhile ws s = []"
    by (induction s) simp_all
  then show "trim ws s = []"
    by (simp only: trim_def rev.simps dropWhile.simps)
qed

text \<open>
  For an angle between 0 and 360 the remainder is the angle measured the other way
  round.
\<close>

lemma js_rem_heading:
  assumes "0 \<le> a" and "a \<le> 360"
  shows "js_rem (360 - a) 360 = (if a = 0 then 0 else 360 - a)"
proof (cases "a = 0")
  case True
  then show ?thesis by (simp add: js_rem_def trunc_def)
next
  case False
  with assms have "0 \<le> (360 - a) / 360" and "(360 - a) / 360 < 1"
    by simp_all
  then have "\<lfloor>(360 - a) / 360\<rfloor> = 0"
    by linarith
  with \<open>0 \<le> (360 - a) / 360\<close> False show ?thesis
    by (simp add: js_rem_def trunc_def)
qed

subsection \<open>Storage\<close>

lemma safeJsonParse_unreadable: "unreadable got \<Longrightarrow> safeJsonParse got d = d"
  by (auto simp: unreadable_def safeJsonParse_def split: option.splits item.splits sum.splits)

lemma safeJsonParse_Json: "safeJsonParse (Some (JSON_stringify v)) d = v"
  by (simp add: safeJsonParse_def JSON_stringify_def JSON_parse_def)

lemma DEFAULT_TABS_array_not_empty: "DEFAULT_TABS_array s \<noteq> []"
  by (simp add: DEFAULT_TABS_array_def DEFAULT_TABS_def)

text \<open>
  C8. When the string under a key is absent or is not valid JSON, the readers return
  their defaults and do not throw: \<open>safeJsonParse\<close> returns the default it was given,
  \<open>getPlaces\<close> and \<open>getSearchHistory\<close> return the empty list, \<open>getSettings\<close> returns
  \<open>DEFAULT_SETTINGS\<close>, and \<open>getTabs\<close>, when no tabs are stored, returns the array
  \<open>DEFAULT_TABS\<close> and stores it (its content is the nine declared tabs as long as
  nothing was pushed onto it).
\<close>

theorem readers_default_when_unreadable:
  "(unreadable got \<longrightarrow> safeJsonParse got d = d) \<and>
   (unreadable (kokomemo_places (localStorage s)) \<longrightarrow> getPlaces s = []) \<and>
   (unreadable (kokomemo_search_history (localStorage s)) \<longrightarrow> getSearchHistory s = []) \<and>
   (unreadable (kokomemo_settings (localStorage s)) \<longrightarrow> getSettings s = DEFAULT_SETTINGS) \<and>
   (unreadable (kokomemo_tabs (localStorage s)) \<or>
    kokomemo_tabs (localStorage s) = Some (JSON_stringify [])
      \<longrightarrow> getTabs s =
            (The_DEFAULT_TABS,
             s\<lparr>localStorage := (localStorage s)
                 \<lparr>kokomemo_tabs := Some (JSON_stringify (DEFAULT_TABS_array s))\<rparr>\<rparr>) \<and>
          deref (snd (getTabs s)) (fst (getTabs s)) = DEFAULT_TABS_array s \<and>
          (pushed s = [] \<longrightarrow> DEFAULT_TABS_array s = DEFAULT_TABS))"
proof -
  have empty: "safeJsonParse (Some (JSON_stringify [])) ([] :: Tab list) = []"
    by (rule safeJsonParse_Json)
  have "unreadable (kokomemo_tabs (localStorage s)) \<or>
      kokomemo_tabs (localStorage s) = Some (JSON_stringify [])
      \<Longrightarrow> safeJsonParse (kokomemo_tabs (localStorage s)) ([] :: Tab list) = []"
    using empty safeJsonParse_unreadable by metis
  then show ?thesis
    by (simp add: safeJsonParse_unreadable getPlaces_def getSearchHistory_def getSettings_def
        getTabs_def deref_def DEFAULT_TABS_array_def)
qed

theorem readers_default_when_unreadable_witness:
  "safeJsonParse (Some Invalid_Text) (7 :: nat) = 7 \<and>
   getPlaces garbled_app = [] \<and>
   getSearchHistory garbled_app = [] \<and>
   getSettings garbled_app = \<lparr>travelMode = driving\<rparr> \<and>
   getTabs garbled_app =
     (The_DEFAULT_TABS,
      garbled_app\<lparr>localStorage := (localStorage garbled_app)
        \<lparr>kokomemo_tabs := Some (Json_Text DEFAULT_TABS)\<rparr>\<rparr>) \<and>
   getTabs fresh_app =
     (The_DEFAULT_TABS,
      fresh_app\<lparr>localStorage := (localStorage fresh_app)
        \<lparr>kokomemo_tabs := Some (Json_Text DEFAULT_TABS)\<rparr>\<rparr>)"
  using readers_default_when_unreadable [of "Some Invalid_Text" "7 :: nat" garbled_app]
    readers_default_when_unreadable [of "Some Invalid_Text" "7 :: nat" fresh_app]
  by (simp add: unreadable_def JSON_parse_def JSON_stringify_def garbled_app_def fresh_app_def
      DEFAULT_SETTINGS_def DEFAULT_TABS_array_def)

text \<open>
  C6. \<open>savePlace\<close> appends exactly one new place: it carries the fields of the input,
  the id that \<^verbatim>\<open>uuidv4()\<close> generated in this call, and one time stamp as both
  \<open>createdAt\<close> and \<open>updatedAt\<close>. The places stored before stay as they were and in
  their order, the other keys of the storage are not touched, and when the generated id
  is new the ids stay distinct.
\<close>

theorem savePlace_appends:
  "let (newPlace, s') = savePlace input uuid now s in
     getPlaces s' = getPlaces s @ [newPlace] \<and>
     newPlace = \<lparr>id_Place = uuid, name_Place = name_New input, memo = memo_New input,
            address_Place = address_New input, latitude_Place = latitude_New input,
            longitude_Place = longitude_New input, tabId = tabId_New input,
            createdAt = now, updatedAt = now\<rparr> \<and>
     createdAt newPlace = updatedAt newPlace \<and>
     kokomemo_tabs (localStorage s') = kokomemo_tabs (localStorage s) \<and>
     kokomemo_search_history (localStorage s') = kokomemo_search_history (localStorage s) \<and>
     kokomemo_settings (localStorage s') = kokomemo_settings (localStorage s) \<and>
     pushed s' = pushed s \<and>
     (distinct (map id_Place (getPlaces s)) \<and> uuid \<notin> set (map id_Place (getPlaces s))
        \<longrightarrow> distinct (map id_Place (getPlaces s')))"
  by (simp add: savePlace_def Let_def getPlaces_def safeJsonParse_Json)

theorem savePlace_appends_witness:
  "getPlaces (snd (savePlace home ''id-2'' ''t2'' (snd (savePlace home ''id-1'' ''t1'' fresh_app))))
     = [\<lparr>id_Place = ''id-1'', name_Place = ''home'', memo = [],
          address_Place = ''1 Main St'', latitude_Place = 35, longitude_Place = 139,
          tabId = ''frequent'', createdAt = ''t1'', updatedAt = ''t1''\<rparr>,
        \<lparr>id_Place = ''id-2'', name_Place = ''home'', memo = [],
          address_Place = ''1 Main St'', latitude_Place = 35, longitude_Place = 139,
          tabId = ''frequent'', createdAt = ''t2'', updatedAt = ''t2''\<rparr>] \<and>
   distinct (map id_Place
     (getPlaces (snd (savePlace home ''id-2'' ''t2''
        (snd (savePlace home ''id-1'' ''t1'' fresh_app))))))"
  using savePlace_appends [of home "''id-2''" "''t2''"
      "snd (savePlace home ''id-1'' ''t1'' fresh_app)"]
  by (simp add: savePlace_def Let_def getPlaces_def safeJsonParse_def JSON_parse_def
      JSON_stringify_def fresh_app_def home_def)

lemma getSearchHistory_addSearchHistory:
  "getSearchHistory (addSearchHistory q placeId now s) =
     take 20 (\<lparr>query_SearchHistory = q, placeId_SearchHistory = placeId, timestamp = now\<rparr>
       # filter (\<lambda>h. query_SearchHistory h \<noteq> q) (getSearchHistory s))"
  by (simp add: addSearchHistory_def Let_def getSearchHistory_def safeJsonParse_Json)

text \<open>
  One call on any state: the history begins with the new entry and goes on with the
  older entries that have another query, in the order they had, at most 20 in all.
  Queries that were pairwise different before the call are so after it.
\<close>

lemma addSearchHistory_result:
  "let before = getSearchHistory s;
       after = getSearchHistory (addSearchHistory q placeId now s);
       newEntry = \<lparr>query_SearchHistory = q, placeId_SearchHistory = placeId,
                    timestamp = now\<rparr>
   in length after \<le> 20 \<and>
      after = newEntry # take 19 (filter (\<lambda>h. query_SearchHistory h \<noteq> q) before) \<and>
      subseq (tl after) before \<and>
      (\<forall>h \<in> set (tl after). query_SearchHistory h \<noteq> q) \<and>
      (distinct (map query_SearchHistory before) \<longrightarrow>
         distinct (map query_SearchHistory after))"
proof -
  let ?f = "filter (\<lambda>h. query_SearchHistory h \<noteq> q) (getSearchHistory s)"
  let ?new = "\<lparr>query_SearchHistory = q, placeId_SearchHistory = placeId, timestamp = now\<rparr>"
  have sub: "subseq (take 19 ?f) (getSearchHistory s)"
  proof -
    have "subseq (take 19 ?f) ?f"
      by (rule prefix_imp_subseq) (rule take_is_prefix)
    moreover have "subseq ?f (getSearchHistory s)"
      by (rule subseq_filter_left)
    ultimately show ?thesis
      by (rule subseq_order.trans)
  qed
  have notq: "\<forall>h \<in> set (take 19 ?f). query_SearchHistory h \<noteq> q"
    by (auto dest: in_set_takeD)
  have dist: "distinct (map query_SearchHistory (take 19 ?f))"
    if "distinct (map query_SearchHistory (getSearchHistory s))"
  proof -
    have "distinct (map query_SearchHistory ?f)"
      using that by (rule distinct_map_filter)
    then have "distinct (take 19 (map query_SearchHistory ?f))"
      by (rule distinct_take)
    then show ?thesis
      by (simp only: take_map)
  qed
  have after: "getSearchHistory (addSearchHistory q placeId now s) = ?new # take 19 ?f"
    by (simp add: getSearchHistory_addSearchHistory take_Cons')
  have len: "length (take 19 ?f) \<le> 19"
    by simp
  have c1: "length (?new # take 19 ?f) \<le> 20"
    using len by (simp only: list.size)
  have c3: "subseq (tl (?new # take 19 ?f)) (getSearchHistory s)"
    using sub by (simp only: list.sel)
  have c4: "\<forall>h \<in> set (tl (?new # take 19 ?f)). query_SearchHistory h \<noteq> q"
    using notq by (simp only: list.sel)
  have c5: "distinct (map query_SearchHistory (?new # take 19 ?f))"
    if "distinct (map query_SearchHistory (getSearchHistory s))"
  proof -
    have "q \<notin> query_SearchHistory ` set (take 19 ?f)"
      using notq by blast
    then have "q \<notin> set (map query_SearchHistory (take 19 ?f))"
      unfolding set_map .
    with dist [OF that] show ?thesis
      by (simp only: list.map distinct.simps) simp
  qed
  show ?thesis
    unfolding Let_def after using c1 c3 c4 c5 by blast
qed

text \<open>Only \<open>addSearchHistory\<close> and \<open>clearSearchHistory\<close> change the history.\<close>

lemma getTabs_keeps_history:
  "getSearchHistory (snd (getTabs s)) = getSearchHistory s"
  by (simp add: getTabs_def getSearchHistory_def Let_def)

lemma addCustomTab_keeps_history:
  "addCustomTab name uuid s = Inr (t, s') \<Longrightarrow> getSearchHistory s' = getSearchHistory s"
proof -
  assume a: "addCustomTab name uuid s = Inr (t, s')"
  obtain r s1 where g: "getTabs s = (r, s1)"
    by (cases "getTabs s")
  have h1: "kokomemo_search_history (localStorage s1) = kokomemo_search_history (localStorage s)"
    using g by (auto simp: getTabs_def Let_def split: if_splits)
  have push: "kokomemo_search_history (localStorage (snd (Array_push r x s1))) =
      kokomemo_search_history (localStorage s1)" for x
    by (simp add: Array_push_def split: TabsRef.splits)
  have "kokomemo_search_history (localStorage s') = kokomemo_search_history (localStorage s1)"
    using a g push
    by (auto simp: addCustomTab_def Let_def split: if_splits option.splits prod.splits)
      (metis snd_conv)
  with h1 show ?thesis
    by (simp add: getSearchHistory_def)
qed

lemma savePlace_keeps_history:
  "getSearchHistory (snd (savePlace input uuid now s)) = getSearchHistory s"
  by (simp add: savePlace_def getSearchHistory_def Let_def)

text \<open>The queries of the history stay pairwise different, whatever is called.\<close>

lemma addSearchHistory_keeps_distinct:
  assumes "distinct (map query_SearchHistory (getSearchHistory s))"
  shows "distinct (map query_SearchHistory (getSearchHistory (addSearchHistory q p now s)))"
proof -
  let ?f = "filter (\<lambda>h. query_SearchHistory h \<noteq> q) (getSearchHistory s)"
  have "distinct (map query_SearchHistory ?f)"
    using assms by (rule distinct_map_filter)
  moreover have "q \<notin> set (map query_SearchHistory ?f)"
    by auto
  ultimately have "distinct (map query_SearchHistory
      (\<lparr>query_SearchHistory = q, placeId_SearchHistory = p, timestamp = now\<rparr> # ?f))"
    by simp
  then have "distinct (take 20 (map query_SearchHistory
      (\<lparr>query_SearchHistory = q, placeId_SearchHistory = p, timestamp = now\<rparr> # ?f)))"
    by (rule distinct_take)
  then show ?thesis
    by (simp only: getSearchHistory_addSearchHistory take_map)
qed

lemma storage_step_keeps_distinct:
  assumes "distinct (map query_SearchHistory (getSearchHistory s))"
  shows "distinct (map query_SearchHistory (getSearchHistory (storage_step call s)))"
proof (cases call)
  case (SavePlace input uuid now)
  then show ?thesis
    using assms by (simp add: storage_step_def savePlace_keeps_history)
next
  case GetTabs
  then show ?thesis
    using assms by (simp add: storage_step_def getTabs_keeps_history)
next
  case (AddCustomTab name uuid)
  then show ?thesis
    using assms addCustomTab_keeps_history [of name uuid s]
    by (auto simp: storage_step_def split: sum.splits)
next
  case (AddSearchHistory q p now)
  then show ?thesis
    using assms by (simp add: storage_step_def addSearchHistory_keeps_distinct)
next
  case ClearSearchHistory
  then show ?thesis
    by (simp add: storage_step_def clearSearchHistory_def getSearchHistory_def
        safeJsonParse_Json)
next
  case (Other_call left)
  then show ?thesis
    using assms by (simp add: storage_step_def getSearchHistory_def)
qed

lemma fold_storage_step_keeps_distinct:
  "distinct (map query_SearchHistory (getSearchHistory s)) \<Longrightarrow>
   distinct (map query_SearchHistory (getSearchHistory (fold storage_step calls s)))"
  by (induction calls arbitrary: s) (simp_all add: storage_step_keeps_distinct)

lemma app_after_distinct:
  "distinct (map query_SearchHistory (getSearchHistory (app_after calls)))"
  unfolding app_after_def
  by (rule fold_storage_step_keeps_distinct)
    (simp add: getSearchHistory_def safeJsonParse_def fresh_app_def)

text \<open>
  C9. In every state that calls of the module lead to from the first start, after
  \<open>addSearchHistory\<close> the stored history has at most 20 entries, no two of them with
  the same query, begins with the new entry (the given query and place id), and goes on
  with the older entries that have another query, in the order they had.
\<close>

theorem addSearchHistory_history_invariant:
  "let s = app_after calls;
       before = getSearchHistory s;
       after = getSearchHistory (addSearchHistory q placeId now s);
       newEntry = \<lparr>query_SearchHistory = q, placeId_SearchHistory = placeId,
                    timestamp = now\<rparr>
   in length after \<le> 20 \<and>
      distinct (map query_SearchHistory after) \<and>
      hd after = newEntry \<and>
      after = newEntry # take 19 (filter (\<lambda>h. query_SearchHistory h \<noteq> q) before) \<and>
      subseq (tl after) before \<and>
      (\<forall>h \<in> set (tl after). query_SearchHistory h \<noteq> q)"
proof -
  let ?s = "app_after calls"
  let ?new = "\<lparr>query_SearchHistory = q, placeId_SearchHistory = placeId, timestamp = now\<rparr>"
  let ?rest = "take 19 (filter (\<lambda>h. query_SearchHistory h \<noteq> q) (getSearchHistory ?s))"
  have after: "getSearchHistory (addSearchHistory q placeId now ?s) = ?new # ?rest"
    and len: "length (getSearchHistory (addSearchHistory q placeId now ?s)) \<le> 20"
    and sub: "subseq (tl (getSearchHistory (addSearchHistory q placeId now ?s)))
        (getSearchHistory ?s)"
    and notq: "\<forall>h \<in> set (tl (getSearchHistory (addSearchHistory q placeId now ?s))).
        query_SearchHistory h \<noteq> q"
    using addSearchHistory_result [of ?s q placeId now]
    unfolding Let_def by blast+
  have dist: "distinct (map query_SearchHistory
      (getSearchHistory (addSearchHistory q placeId now ?s)))"
    using app_after_distinct by (rule addSearchHistory_keeps_distinct)
  have hd: "hd (getSearchHistory (addSearchHistory q placeId now ?s)) = ?new"
    unfolding after by (rule list.sel)
  show ?thesis
    unfolding Let_def using len dist hd after sub notq by blast
qed

theorem addSearchHistory_history_invariant_witness:
  "getSearchHistory
     (app_after [AddSearchHistory ''cafe'' None ''t1'', AddSearchHistory ''park'' None ''t2'']) =
     [\<lparr>query_SearchHistory = ''park'', placeId_SearchHistory = None, timestamp = ''t2''\<rparr>,
      \<lparr>query_SearchHistory = ''cafe'', placeId_SearchHistory = None, timestamp = ''t1''\<rparr>] \<and>
   getSearchHistory
     (addSearchHistory ''cafe'' (Some ''ChIJ'') ''t3''
        (app_after [AddSearchHistory ''cafe'' None ''t1'', AddSearchHistory ''park'' None ''t2''])) =
     [\<lparr>query_SearchHistory = ''cafe'', placeId_SearchHistory = Some ''ChIJ'',
        timestamp = ''t3''\<rparr>,
      \<lparr>query_SearchHistory = ''park'', placeId_SearchHistory = None, timestamp = ''t2''\<rparr>] \<and>
   distinct (map query_SearchHistory
     (getSearchHistory
        (addSearchHistory ''cafe'' (Some ''ChIJ'') ''t3''
           (app_after [AddSearchHistory ''cafe'' None ''t1'',
              AddSearchHistory ''park'' None ''t2'']))))"
proof -
  have before: "getSearchHistory
      (app_after [AddSearchHistory ''cafe'' None ''t1'', AddSearchHistory ''park'' None ''t2'']) =
      [\<lparr>query_SearchHistory = ''park'', placeId_SearchHistory = None, timestamp = ''t2''\<rparr>,
       \<lparr>query_SearchHistory = ''cafe'', placeId_SearchHistory = None, timestamp = ''t1''\<rparr>]"
  proof -
    have "getSearchHistory fresh_app = []"
      by (simp add: getSearchHistory_def safeJsonParse_def fresh_app_def)
    then show ?thesis
      by (simp add: app_after_def storage_step_def getSearchHistory_addSearchHistory)
  qed
  show ?thesis
    using addSearchHistory_history_invariant
      [of "[AddSearchHistory ''cafe'' None ''t1'', AddSearchHistory ''park'' None ''t2'']"
        "''cafe''" "Some ''ChIJ''" "''t3''"]
    unfolding Let_def before by simp
qed

subsection \<open>Tabs\<close>

lemma getTabs_pushed: "getTabs s = (r, s1) \<Longrightarrow> pushed s1 = pushed s"
  by (auto simp: getTabs_def Let_def split: if_splits)

text \<open>\<open>getTabs\<close> never returns an empty array.\<close>

lemma getTabs_not_empty:
  assumes "getTabs s = (r, s')"
  shows "deref s' r \<noteq> []"
proof -
  let ?st = "safeJsonParse (kokomemo_tabs (localStorage s)) ([] :: Tab list)"
  show ?thesis
  proof (cases "?st = []")
    case True
    with assms have "r = The_DEFAULT_TABS"
      by (simp add: getTabs_def)
    then show ?thesis
      by (simp add: deref_def DEFAULT_TABS_array_not_empty)
  next
    case False
    have "Array_sort cmp (?st @ ys) \<noteq> []" for cmp ys
      using False length_Array_sort [of cmp "?st @ ys"] by auto
    with assms False show ?thesis
      by (auto simp: getTabs_def Let_def deref_def split: if_splits)
  qed
qed

text \<open>
  A stored list that is not empty and has every id of the default tabs is returned as
  it is, and nothing is written.
\<close>

lemma getTabs_stored:
  assumes "safeJsonParse (kokomemo_tabs (localStorage s)) [] = ts" and "ts \<noteq> []"
    and "id_Tab ` set (DEFAULT_TABS_array s) \<subseteq> id_Tab ` set ts"
  shows "getTabs s = (Own ts, s)"
proof -
  have "filter (\<lambda>t. id_Tab t \<notin> set (map id_Tab ts)) (DEFAULT_TABS_array s) = []"
    using assms(3) by (auto simp: filter_empty_conv)
  with assms(1,2) show ?thesis
    by (simp add: getTabs_def Let_def)
qed

text \<open>What \<open>getTabs\<close> returns is what it leaves in the storage, with all default ids.\<close>

lemma getTabs_covers:
  assumes "getTabs s = (r, s1)"
  shows "safeJsonParse (kokomemo_tabs (localStorage s1)) [] = deref s1 r \<and>
         id_Tab ` set (DEFAULT_TABS_array s1) \<subseteq> id_Tab ` set (deref s1 r)"
proof -
  let ?st = "safeJsonParse (kokomemo_tabs (localStorage s)) ([] :: Tab list)"
  let ?new = "filter (\<lambda>t. id_Tab t \<notin> set (map id_Tab ?st)) (DEFAULT_TABS_array s)"
  let ?merged = "Array_sort (\<lambda>a b. order a - order b) (?st @ ?new)"
  have d: "DEFAULT_TABS_array s1 = DEFAULT_TABS_array s"
    using getTabs_pushed [OF assms] by (simp add: DEFAULT_TABS_array_def)
  consider (default) "?st = []" | (merge) "?st \<noteq> []" "?new \<noteq> []"
    | (stored) "?st \<noteq> []" "?new = []"
    by blast
  then show ?thesis
  proof cases
    case default
    with assms have "r = The_DEFAULT_TABS"
      and "s1 = s\<lparr>localStorage := (localStorage s)
                   \<lparr>kokomemo_tabs := Some (JSON_stringify (DEFAULT_TABS_array s))\<rparr>\<rparr>"
      by (simp_all add: getTabs_def)
    then show ?thesis
      using d by (simp add: safeJsonParse_Json deref_def)
  next
    case merge
    with assms have "r = Own ?merged"
      and "s1 = s\<lparr>localStorage := (localStorage s)
                   \<lparr>kokomemo_tabs := Some (JSON_stringify ?merged)\<rparr>\<rparr>"
      by (simp_all add: getTabs_def Let_def)
    moreover have "id_Tab ` set (DEFAULT_TABS_array s) \<subseteq> id_Tab ` set ?merged"
      unfolding set_Array_sort by auto
    ultimately show ?thesis
      using d by (simp add: safeJsonParse_Json deref_def)
  next
    case stored
    with assms have "r = Own ?st" and "s1 = s"
      by (auto simp: getTabs_def Let_def)
    moreover have "id_Tab ` set (DEFAULT_TABS_array s) \<subseteq> id_Tab ` set ?st"
      using stored(2) by (auto simp: filter_empty_conv)
    ultimately show ?thesis
      by (simp add: deref_def)
  qed
qed

text \<open>Reading the tabs a second time returns the same list and writes nothing.\<close>

lemma getTabs_again:
  assumes "getTabs s = (r, s1)"
  shows "getTabs s1 = (Own (deref s1 r), s1)"
  using getTabs_covers [OF assms] getTabs_not_empty [OF assms]
  by (intro getTabs_stored) simp_all

text \<open>
  C10. \<open>addCustomTab\<close> reads the tabs with \<open>getTabs\<close>. When the list it reads has five
  custom tabs or more, it returns \<^verbatim>\<open>null\<close> and adds no tab: the state is the one
  \<open>getTabs\<close> left, and the list read from it is the same. Otherwise it appends exactly
  one tab to that list and stores the result: a custom tab with the given name, the
  generated id, and an order one greater than the greatest order in the list.
\<close>

theorem addCustomTab_limit_and_order:
  "let (r, s1) = getTabs s; tabs = deref s1 r in
     (length (filter isCustom tabs) \<ge> 5 \<longrightarrow>
        addCustomTab name uuid s = Inr (None, s1) \<and>
        getTabs s1 = (Own tabs, s1)) \<and>
     (length (filter isCustom tabs) < 5 \<longrightarrow>
        (\<exists>maxOrder s'.
           Math_max (map order tabs) = Some maxOrder \<and>
           maxOrder \<in> set (map order tabs) \<and>
           (\<forall>t \<in> set tabs. order t \<le> maxOrder) \<and>
           addCustomTab name uuid s =
             Inr (Some \<lparr>id_Tab = uuid, name_Tab = name, isCustom = True,
                         order = maxOrder + 1\<rparr>, s') \<and>
           kokomemo_tabs (localStorage s') =
             Some (JSON_stringify
               (tabs @ [\<lparr>id_Tab = uuid, name_Tab = name, isCustom = True,
                          order = maxOrder + 1\<rparr>])) \<and>
           getTabs s' =
             (Own (tabs @ [\<lparr>id_Tab = uuid, name_Tab = name, isCustom = True,
                             order = maxOrder + 1\<rparr>]), s')))"
proof -
  obtain r s1 where g: "getTabs s = (r, s1)"
    by (cases "getTabs s")
  let ?tabs = "deref s1 r"
  have again: "getTabs s1 = (Own ?tabs, s1)"
    using g by (rule getTabs_again)
  have full: "addCustomTab name uuid s = Inr (None, s1)"
    if "length (filter isCustom ?tabs) \<ge> 5"
    using that g by (simp add: addCustomTab_def)
  have room: "\<exists>maxOrder s'.
           Math_max (map order ?tabs) = Some maxOrder \<and>
           maxOrder \<in> set (map order ?tabs) \<and>
           (\<forall>t \<in> set ?tabs. order t \<le> maxOrder) \<and>
           addCustomTab name uuid s =
             Inr (Some \<lparr>id_Tab = uuid, name_Tab = name, isCustom = True,
                         order = maxOrder + 1\<rparr>, s') \<and>
           kokomemo_tabs (localStorage s') =
             Some (JSON_stringify
               (?tabs @ [\<lparr>id_Tab = uuid, name_Tab = name, isCustom = True,
                           order = maxOrder + 1\<rparr>])) \<and>
           getTabs s' =
             (Own (?tabs @ [\<lparr>id_Tab = uuid, name_Tab = name, isCustom = True,
                             order = maxOrder + 1\<rparr>]), s')"
    if less: "length (filter isCustom ?tabs) < 5"
  proof -
    have "map order ?tabs \<noteq> []"
      using getTabs_not_empty [OF g] by simp
    then obtain m where m: "Math_max (map order ?tabs) = Some m"
      using Math_max_not_empty by blast
    let ?newTab = "\<lparr>id_Tab = uuid, name_Tab = name, isCustom = True, order = m + 1\<rparr>"
    obtain r2 s2 where p: "Array_push r ?newTab s1 = (r2, s2)"
      by (cases "Array_push r ?newTab s1")
    have d2: "deref s2 r2 = ?tabs @ [?newTab]"
      using p by (auto simp: Array_push_def deref_def DEFAULT_TABS_array_def split: TabsRef.splits)
    let ?s' = "s2\<lparr>localStorage := (localStorage s2)
                 \<lparr>kokomemo_tabs := Some (JSON_stringify (?tabs @ [?newTab]))\<rparr>\<rparr>"
    have res: "addCustomTab name uuid s = Inr (Some ?newTab, ?s')"
      using g less m p d2 by (simp add: addCustomTab_def Let_def)
    have "getTabs ?s' = (Own (?tabs @ [?newTab]), ?s')"
    proof (rule getTabs_stored)
      show "safeJsonParse (kokomemo_tabs (localStorage ?s')) [] = ?tabs @ [?newTab]"
        by (simp add: safeJsonParse_Json)
      show "?tabs @ [?newTab] \<noteq> []"
        by simp
      have "pushed s2 = pushed s1 \<or> pushed s2 = pushed s1 @ [?newTab]"
        using p by (auto simp: Array_push_def split: TabsRef.splits)
      then have "set (DEFAULT_TABS_array ?s') \<subseteq> insert ?newTab (set (DEFAULT_TABS_array s1))"
        by (auto simp: DEFAULT_TABS_array_def)
      then have "id_Tab ` set (DEFAULT_TABS_array ?s')
          \<subseteq> insert (id_Tab ?newTab) (id_Tab ` set (DEFAULT_TABS_array s1))"
        by blast
      also have "\<dots> \<subseteq> insert (id_Tab ?newTab) (id_Tab ` set ?tabs)"
        using getTabs_covers [OF g] by blast
      also have "\<dots> = id_Tab ` set (?tabs @ [?newTab])"
        by simp
      finally show "id_Tab ` set (DEFAULT_TABS_array ?s') \<subseteq> id_Tab ` set (?tabs @ [?newTab])" .
    qed
    moreover have "m \<in> set (map order ?tabs)" and "\<forall>t \<in> set ?tabs. order t \<le> m"
      using Math_max_Some [OF m] by simp_all
    moreover have "kokomemo_tabs (localStorage ?s') = Some (JSON_stringify (?tabs @ [?newTab]))"
      by simp
    ultimately show ?thesis
      using m res by (intro exI [of _ m] exI [of _ ?s'] conjI)
  qed
  show ?thesis
    unfolding g Let_def prod.case using again full room by blast
qed

lemma getTabs_fresh_app:
  "getTabs fresh_app =
     (The_DEFAULT_TABS,
      fresh_app\<lparr>localStorage := (localStorage fresh_app)
        \<lparr>kokomemo_tabs := Some (Json_Text DEFAULT_TABS)\<rparr>\<rparr>)"
  by (simp add: getTabs_def fresh_app_def safeJsonParse_def JSON_stringify_def
      DEFAULT_TABS_array_def)

lemma getTabs_upgraded_app:
  "getTabs upgraded_app =
     (Own merged_tabs,
      upgraded_app\<lparr>localStorage := (localStorage upgraded_app)
        \<lparr>kokomemo_tabs := Some (Json_Text merged_tabs)\<rparr>\<rparr>)"
  by (simp add: getTabs_def upgraded_app_def merged_tabs_def safeJsonParse_def JSON_parse_def
      JSON_stringify_def DEFAULT_TABS_array_def DEFAULT_TABS_def custom_tab_def Array_sort_def
      Let_def)

lemma custom_merged_tabs:
  "filter isCustom merged_tabs =
     [custom_tab ''c1'' 8, custom_tab ''c2'' 9, custom_tab ''c3'' 10, custom_tab ''c4'' 11,
      custom_tab ''c5'' 12]"
  by (simp add: merged_tabs_def DEFAULT_TABS_def custom_tab_def)

theorem addCustomTab_limit_and_order_witness:
  "addCustomTab ''gym'' ''u1'' fresh_app =
     Inr (Some \<lparr>id_Tab = ''u1'', name_Tab = ''gym'', isCustom = True, order = 9\<rparr>,
          fresh_app\<lparr>localStorage := (localStorage fresh_app)
              \<lparr>kokomemo_tabs := Some (Json_Text (DEFAULT_TABS @
                 [\<lparr>id_Tab = ''u1'', name_Tab = ''gym'', isCustom = True, order = 9\<rparr>]))\<rparr>,
            pushed := [\<lparr>id_Tab = ''u1'', name_Tab = ''gym'', isCustom = True, order = 9\<rparr>]\<rparr>) \<and>
   addCustomTab ''gym'' ''u1'' upgraded_app = Inr (None, snd (getTabs upgraded_app)) \<and>
   length (filter isCustom (deref (snd (getTabs upgraded_app)) (fst (getTabs upgraded_app)))) = 5"
proof -
  have "Math_max (map order DEFAULT_TABS) = Some 8" and "filter isCustom DEFAULT_TABS = []"
    by (simp_all add: DEFAULT_TABS_def)
  then have "addCustomTab ''gym'' ''u1'' fresh_app =
     Inr (Some \<lparr>id_Tab = ''u1'', name_Tab = ''gym'', isCustom = True, order = 9\<rparr>,
          fresh_app\<lparr>localStorage := (localStorage fresh_app)
              \<lparr>kokomemo_tabs := Some (Json_Text (DEFAULT_TABS @
                 [\<lparr>id_Tab = ''u1'', name_Tab = ''gym'', isCustom = True, order = 9\<rparr>]))\<rparr>,
            pushed := [\<lparr>id_Tab = ''u1'', name_Tab = ''gym'', isCustom = True, order = 9\<rparr>]\<rparr>)"
    by (simp add: addCustomTab_def getTabs_fresh_app deref_def DEFAULT_TABS_array_def
        Array_push_def JSON_stringify_def Let_def)
      (simp add: fresh_app_def Let_def Array_push_def deref_def DEFAULT_TABS_array_def
        JSON_stringify_def)
  moreover have "length (filter isCustom
      (deref (snd (getTabs upgraded_app)) (fst (getTabs upgraded_app)))) = 5"
    by (simp add: getTabs_upgraded_app deref_def custom_merged_tabs)
  ultimately show ?thesis
    using addCustomTab_limit_and_order [of upgraded_app "''gym''" "''u1''"]
      addCustomTab_limit_and_order [of fresh_app "''gym''" "''u1''"]
    by (simp add: getTabs_upgraded_app deref_def custom_merged_tabs)
qed

text \<open>
  The stored list itself need not stay unchanged when five custom tabs exist: when it
  lacks a default tab, reading the tabs merges the missing default tab in and stores the
  merged list, before the limit is looked at.
\<close>

theorem addCustomTab_at_limit_rewrites_storage:
  "length (filter isCustom (safeJsonParse (kokomemo_tabs (localStorage upgraded_app)) [])) = 5 \<and>
   addCustomTab ''gym'' ''u1'' upgraded_app =
     Inr (None, upgraded_app\<lparr>localStorage := (localStorage upgraded_app)
        \<lparr>kokomemo_tabs := Some (Json_Text merged_tabs)\<rparr>\<rparr>) \<and>
   Some (Json_Text merged_tabs) \<noteq> kokomemo_tabs (localStorage upgraded_app)"
proof -
  have "length (filter isCustom
      (safeJsonParse (kokomemo_tabs (localStorage upgraded_app)) [])) = 5"
    by (simp add: upgraded_app_def safeJsonParse_def JSON_parse_def DEFAULT_TABS_def
        custom_tab_def)
  moreover have "addCustomTab ''gym'' ''u1'' upgraded_app =
     Inr (None, upgraded_app\<lparr>localStorage := (localStorage upgraded_app)
        \<lparr>kokomemo_tabs := Some (Json_Text merged_tabs)\<rparr>\<rparr>)"
    by (simp add: addCustomTab_def getTabs_upgraded_app deref_def custom_merged_tabs)
  moreover have "Some (Json_Text merged_tabs) \<noteq> kokomemo_tabs (localStorage upgraded_app)"
    by (simp add: upgraded_app_def merged_tabs_def DEFAULT_TABS_def custom_tab_def)
  ultimately show ?thesis
    by blast
qed

subsection \<open>Navigation and distances\<close>

text \<open>
  C7. For every latitude, longitude and travel mode, \<open>openNavigation\<close> opens exactly the
  address \<^verbatim>\<open>https://www.google.com/maps/dir/?api=1&destination={latitude},{longitude}&travelmode={travelMode}\<close>
  in a new window, and the travel mode is \<^verbatim>\<open>driving\<close> when none is given.
\<close>

theorem openNavigation_url:
  "openNavigation toString latitude longitude (Some mode) =
     (''https://www.google.com/maps/dir/?api=1&destination='' @ toString latitude @ '',''
        @ toString longitude @ ''&travelmode='' @ travelMode_text mode, ''_blank'') \<and>
   openNavigation toString latitude longitude None =
     (''https://www.google.com/maps/dir/?api=1&destination='' @ toString latitude @ '',''
        @ toString longitude @ ''&travelmode=driving'', ''_blank'') \<and>
   travelMode_text driving = ''driving'' \<and> travelMode_text transit = ''transit'' \<and>
   travelMode_text walking = ''walking''"
  by (simp add: openNavigation_def travelMode_text_def)

text \<open>
  In exact arithmetic the haversine of a central angle lies between 0 and 1, for all
  latitudes and longitudes: there both square roots in \<open>calculateDistance\<close> are of
  numbers that are not negative.
\<close>

lemma haversine_term_bounds:
  "0 \<le> haversine_term p1 l1 p2 l2 \<and> haversine_term p1 l1 p2 l2 \<le> 1"
proof -
  define s where "s = sin ((p2 - p1) / 2) ^ 2"
  define h where "h = sin ((l2 - l1) / 2) ^ 2"
  define c where "c = cos p1 * cos p2"
  have sq: "sin x ^ 2 \<le> 1" for x :: real
    using sin_cos_squared_add [of x] zero_le_power2 [of "cos x"] by linarith
  have h: "0 \<le> h" "h \<le> 1"
    unfolding h_def using sq by simp_all
  have s: "0 \<le> s" "s \<le> 1"
    unfolding s_def using sq by simp_all
  have cd: "cos (p2 - p1) = 1 - 2 * s"
  proof -
    have "2 * ((p2 - p1) / 2) = p2 - p1" by simp
    then show ?thesis
      unfolding s_def using cos_double_sin [of "(p2 - p1) / 2"] by (simp only:)
  qed
  have "cos (p2 - p1) + cos (p2 + p1) = 2 * c"
    unfolding c_def by (simp add: cos_add cos_diff)
  then have c: "2 * c = 1 - 2 * s + cos (p2 + p1)"
    using cd by simp
  have c_le: "c \<le> 1 - s"
    using c cos_le_one [of "p2 + p1"] by linarith
  have c_ge: "- s \<le> c"
    using c cos_ge_minus_one [of "p2 + p1"] by linarith
  have "0 \<le> s + c * h"
  proof (cases "0 \<le> c")
    case True
    then show ?thesis using s h by simp
  next
    case False
    then have "c * h \<ge> c * 1"
      using h by (intro mult_left_mono_neg) simp_all
    then show ?thesis using c_ge by simp
  qed
  moreover have "s + c * h \<le> 1"
  proof (cases "0 \<le> c")
    case True
    then have "c * h \<le> c * 1"
      using h by (intro mult_left_mono) simp_all
    then show ?thesis using c_le by simp
  next
    case False
    then have "c * h \<le> 0"
      using h by (simp add: mult_le_0_iff)
    then show ?thesis using s by simp
  qed
  ultimately show ?thesis
    by (simp add: haversine_term_def s_def h_def c_def)
qed

subsection \<open>Rounding to a double\<close>

























subsection \<open>Merging the search results\<close>

text \<open>
  C1. The merged list of suggestions is all nearby results first, in their order,
  followed by exactly those autocomplete results whose place id is not the place id of a
  nearby result; this holds on the search page and in the search bar. No place id of the
  second part occurs in the first, and when neither of the two result lists repeats a
  place id, no place id appears twice in the merged list.
\<close>

theorem mergeSuggestions_nearby_first:
  "mergeSuggestions nearbyResults autocompleteResults =
     map (\<lambda>r. \<lparr>text_Sug = name_Nearby r, description_Sug = Some (address_Nearby r),
                placeId_Sug = placeId_Nearby r,
                distanceMeters_Sug = Some (distanceMeters_Nearby r)\<rparr>) nearbyResults @
     map (\<lambda>r. \<lparr>text_Sug = mainText r, description_Sug = Some (secondaryText r),
                placeId_Sug = placeId_Auto r, distanceMeters_Sug = distanceMeters_Auto r\<rparr>)
       (filter (\<lambda>r. placeId_Auto r \<notin> set (map placeId_Nearby nearbyResults))
          autocompleteResults) \<and>
   map placeId_Sug (mergeSuggestions nearbyResults autocompleteResults) =
     map placeId_Nearby nearbyResults @
     filter (\<lambda>i. i \<notin> set (map placeId_Nearby nearbyResults))
       (map placeId_Auto autocompleteResults) \<and>
   (distinct (map placeId_Nearby nearbyResults) \<and>
    distinct (map placeId_Auto autocompleteResults) \<longrightarrow>
      distinct (map placeId_Sug (mergeSuggestions nearbyResults autocompleteResults))) \<and>
   mergeSuggestions_Bar nearbyResults predictions =
     map (\<lambda>r. \<lparr>type_Bar = nearby, text_Bar = name_Nearby r,
                description_Bar = Some (address_Nearby r),
                placeId_Bar = Some (placeId_Nearby r),
                distanceMeters_Bar = Some (distanceMeters_Nearby r)\<rparr>) nearbyResults @
     map (\<lambda>p. \<lparr>type_Bar = place, text_Bar = main_text p,
                description_Bar = Some (secondary_text p),
                placeId_Bar = Some (place_id p), distanceMeters_Bar = distance_meters p\<rparr>)
       (filter (\<lambda>p. place_id p \<notin> set (map placeId_Nearby nearbyResults)) predictions) \<and>
   map placeId_Bar (mergeSuggestions_Bar nearbyResults predictions) =
     map Some (map placeId_Nearby nearbyResults @
       filter (\<lambda>i. i \<notin> set (map placeId_Nearby nearbyResults)) (map place_id predictions)) \<and>
   (distinct (map placeId_Nearby nearbyResults) \<and> distinct (map place_id predictions) \<longrightarrow>
      distinct (map placeId_Bar (mergeSuggestions_Bar nearbyResults predictions)))"
proof -
  let ?ids = "set (map placeId_Nearby nearbyResults)"
  have ids: "map placeId_Sug (mergeSuggestions nearbyResults autocompleteResults) =
     map placeId_Nearby nearbyResults @
     filter (\<lambda>i. i \<notin> ?ids) (map placeId_Auto autocompleteResults)"
    by (simp add: mergeSuggestions_def Let_def filter_map comp_def)
  have ids_bar: "map placeId_Bar (mergeSuggestions_Bar nearbyResults predictions) =
     map Some (map placeId_Nearby nearbyResults @
       filter (\<lambda>i. i \<notin> ?ids) (map place_id predictions))"
    by (simp add: mergeSuggestions_Bar_def Let_def filter_map comp_def)
  have dist: "distinct (xs @ filter (\<lambda>i. i \<notin> set xs) ys)"
    if "distinct xs" "distinct ys" for xs ys :: "string list"
    using that by auto
  have "distinct (map placeId_Sug (mergeSuggestions nearbyResults autocompleteResults))"
    if "distinct (map placeId_Nearby nearbyResults)"
      "distinct (map placeId_Auto autocompleteResults)"
    unfolding ids using that by (rule dist)
  moreover have "distinct (map placeId_Bar (mergeSuggestions_Bar nearbyResults predictions))"
    if "distinct (map placeId_Nearby nearbyResults)" "distinct (map place_id predictions)"
    unfolding ids_bar using dist [OF that] by (simp only: distinct_map inj_on_def) blast
  moreover have "mergeSuggestions nearbyResults autocompleteResults =
     map (\<lambda>r. \<lparr>text_Sug = name_Nearby r, description_Sug = Some (address_Nearby r),
                placeId_Sug = placeId_Nearby r,
                distanceMeters_Sug = Some (distanceMeters_Nearby r)\<rparr>) nearbyResults @
     map (\<lambda>r. \<lparr>text_Sug = mainText r, description_Sug = Some (secondaryText r),
                placeId_Sug = placeId_Auto r, distanceMeters_Sug = distanceMeters_Auto r\<rparr>)
       (filter (\<lambda>r. placeId_Auto r \<notin> ?ids) autocompleteResults)"
    by (simp add: mergeSuggestions_def Let_def)
  moreover have "mergeSuggestions_Bar nearbyResults predictions =
     map (\<lambda>r. \<lparr>type_Bar = nearby, text_Bar = name_Nearby r,
                description_Bar = Some (address_Nearby r),
                placeId_Bar = Some (placeId_Nearby r),
                distanceMeters_Bar = Some (distanceMeters_Nearby r)\<rparr>) nearbyResults @
     map (\<lambda>p. \<lparr>type_Bar = place, text_Bar = main_text p,
                description_Bar = Some (secondary_text p),
                placeId_Bar = Some (place_id p), distanceMeters_Bar = distance_meters p\<rparr>)
       (filter (\<lambda>p. place_id p \<notin> ?ids) predictions)"
    by (simp add: mergeSuggestions_Bar_def Let_def)
  ultimately show ?thesis
    using ids ids_bar by blast
qed

theorem mergeSuggestions_nearby_first_witness:
  "map placeId_Sug
     (mergeSuggestions [nearby_result ''near'' 10, nearby_result ''far'' 900]
        [auto_result ''far'', auto_result ''shop'']) = [''near'', ''far'', ''shop''] \<and>
   distinct (map placeId_Sug
     (mergeSuggestions [nearby_result ''near'' 10, nearby_result ''far'' 900]
        [auto_result ''far'', auto_result ''shop''])) \<and>
   map placeId_Bar
     (mergeSuggestions_Bar [nearby_result ''near'' 10, nearby_result ''far'' 900]
        [prediction ''far'', prediction ''shop'']) = [Some ''near'', Some ''far'', Some ''shop'']"
  using mergeSuggestions_nearby_first
    [of "[nearby_result ''near'' 10, nearby_result ''far'' 900]"
        "[auto_result ''far'', auto_result ''shop'']" "[prediction ''far'', prediction ''shop'']"]
  by (simp add: nearby_result_def auto_result_def prediction_def)

text \<open>
  Without the condition a place id can appear twice in the merged list. Only the ids of
  the nearby results are taken out of the autocomplete results: a place id that one of
  the two lists holds twice is twice in the merged list. Here the nearby results hold
  one place twice, and the autocomplete results do.
\<close>

theorem mergeSuggestions_repeats_place_id:
  "map placeId_Sug
     (mergeSuggestions [nearby_result ''cafe'' 10, nearby_result ''cafe'' 10] []) =
     [''cafe'', ''cafe''] \<and>
   map placeId_Sug (mergeSuggestions [] [auto_result ''cafe'', auto_result ''cafe'']) =
     [''cafe'', ''cafe''] \<and>
   \<not> distinct (map placeId_Sug
        (mergeSuggestions [] [auto_result ''cafe'', auto_result ''cafe'']))"
  by (simp add: mergeSuggestions_def nearby_result_def auto_result_def)

subsection \<open>Debouncing the search\<close>

lemma same_handle_short:
  assumes "\<forall>t \<in> set ts. r = Some (handle t)" and "distinct (map handle ts)"
  shows "length ts \<le> 1"
proof (cases ts)
  case Nil
  then show ?thesis by simp
next
  case (Cons a as)
  show ?thesis
  proof (cases as)
    case Nil
    with Cons show ?thesis by simp
  next
    case (Cons b bs)
    with \<open>ts = a # as\<close> assms have "handle a = handle b" "handle a \<noteq> handle b"
      by auto
    then show ?thesis by simp
  qed
qed

lemma debounced_short: "debounced page \<Longrightarrow> length (timers page) \<le> 1"
  unfolding debounced_def using same_handle_short by blast

lemma debounced_Bar_short: "debounced_Bar bar \<Longrightarrow> length (timers_Bar bar) \<le> 1"
  unfolding debounced_Bar_def using same_handle_short by blast

text \<open>Clearing the timer that \<open>debounceRef\<close> names leaves no timer pending.\<close>

lemma debounced_cleared:
  assumes "debounced page"
  shows "timers (case debounceRef page of None \<Rightarrow> page
           | Some h \<Rightarrow> if h \<noteq> 0 then clearTimeout_Page h page else page) = []"
proof (cases "debounceRef page")
  case None
  with assms have "set (timers page) = {}"
    unfolding debounced_def by auto
  with None show ?thesis by simp
next
  case (Some h)
  show ?thesis
  proof (cases "h = 0")
    case True
    with Some assms have "set (timers page) = {}"
      unfolding debounced_def by fastforce
    with Some True show ?thesis by simp
  next
    case False
    from Some assms have "\<forall>t \<in> set (timers page). handle t = h"
      unfolding debounced_def by auto
    then have "filter (\<lambda>t. handle t \<noteq> h) (timers page) = []"
      by (simp add: filter_empty_conv)
    with Some False show ?thesis
      by (simp add: clearTimeout_Page_def)
  qed
qed

lemma debounced_cleared_eq:
  assumes "debounced page"
  shows "(case debounceRef page of None \<Rightarrow> page
           | Some h \<Rightarrow> if h \<noteq> 0 then clearTimeout_Page h page else page) = page\<lparr>timers := []\<rparr>"
proof -
  let ?p = "case debounceRef page of None \<Rightarrow> page
           | Some h \<Rightarrow> if h \<noteq> 0 then clearTimeout_Page h page else page"
  have "?p = page\<lparr>timers := timers ?p\<rparr>"
    by (simp add: clearTimeout_Page_def split: option.splits)
  then show ?thesis
    using debounced_cleared [OF assms] by simp
qed

lemma handleInputChange_debounced:
  assumes "debounced page"
  shows "handleInputChange ws v page =
     (if trim ws v = []
      then page\<lparr>query_Page := v, selectedPlace := None, timers := [],
                suggestions := [], isSearching := False\<rparr>
      else page\<lparr>query_Page := v, selectedPlace := None,
                timers := [\<lparr>handle = Suc (handles_given page), delay = 800,
                            search_arg = v\<rparr>],
                isSearching := True, handles_given := Suc (handles_given page),
                debounceRef := Some (Suc (handles_given page))\<rparr>)"
proof -
  let ?p1 = "page\<lparr>query_Page := v, selectedPlace := None\<rparr>"
  have "debounced ?p1"
    using assms by (simp add: debounced_def)
  then have "(case debounceRef ?p1 of None \<Rightarrow> ?p1
           | Some h \<Rightarrow> if h \<noteq> 0 then clearTimeout_Page h ?p1 else ?p1) = ?p1\<lparr>timers := []\<rparr>"
    by (rule debounced_cleared_eq)
  then show ?thesis
    by (simp add: handleInputChange_def Let_def setTimeout_Page_def)
qed

lemma handleInputChange_keeps_debounced:
  "debounced page \<Longrightarrow> debounced (handleInputChange ws v page)"
  by (simp add: handleInputChange_debounced) (simp add: debounced_def)

lemma handleQuickSearch_keeps_debounced:
  assumes "debounced page"
  shows "debounced (handleQuickSearch searchTerm page)"
proof -
  let ?p1 = "page\<lparr>query_Page := searchTerm, selectedPlace := None, suggestions := [],
                        isSearching := True\<rparr>"
  have "debounced ?p1"
    using assms by (simp add: debounced_def)
  then have "(case debounceRef ?p1 of None \<Rightarrow> ?p1
           | Some h \<Rightarrow> if h \<noteq> 0 then clearTimeout_Page h ?p1 else ?p1) = ?p1\<lparr>timers := []\<rparr>"
    by (rule debounced_cleared_eq)
  then show ?thesis
    by (simp add: handleQuickSearch_def Let_def debounced_def)
qed

lemma clearTimeout_keeps_debounced: "debounced page \<Longrightarrow> debounced (clearTimeout_Page h page)"
  by (auto simp: debounced_def clearTimeout_Page_def distinct_map_filter)

lemma executeSearch_keeps_debounced:
  "debounced page \<Longrightarrow> debounced (executeSearch key q env page)"
  by (simp add: debounced_def executeSearch_def Let_def)

lemma page_step_keeps_debounced: "debounced page \<Longrightarrow> debounced (page_step ws key ev page)"
  by (cases ev)
    (simp_all add: page_step_def handleInputChange_keeps_debounced
      handleQuickSearch_keeps_debounced clearTimeout_keeps_debounced
      executeSearch_keeps_debounced)

lemma fold_page_step_debounced:
  "debounced page \<Longrightarrow> debounced (fold (page_step ws key) evs page)"
  by (induction evs arbitrary: page) (simp_all add: page_step_keeps_debounced)

lemma page_after_debounced: "debounced (page_after ws key evs)"
  unfolding page_after_def
  by (rule fold_page_step_debounced) (simp add: debounced_def initial_page_def)

lemma effect_cleanup_debounced:
  assumes "debounced_Bar bar"
  shows "effect_cleanup bar = bar\<lparr>timers_Bar := []\<rparr>"
proof (cases "cleanup_timer bar")
  case None
  with assms have "set (timers_Bar bar) = {}"
    unfolding debounced_Bar_def by auto
  with None show ?thesis
    by (simp add: effect_cleanup_def)
next
  case (Some h)
  with assms have "\<forall>t \<in> set (timers_Bar bar). handle t = h"
    unfolding debounced_Bar_def by auto
  then have "filter (\<lambda>t. handle t \<noteq> h) (timers_Bar bar) = []"
    by (simp add: filter_empty_conv)
  with Some show ?thesis
    by (simp add: effect_cleanup_def clearTimeout_Bar_def)
qed

lemma rerun_debounced:
  assumes "debounced_Bar bar"
  shows "search_effect ws (effect_cleanup bar) =
     (if trim ws (query_Bar bar) = []
      then bar\<lparr>timers_Bar := [], suggestions_Bar := [], isSearching_Bar := False,
               cleanup_timer := None\<rparr>
      else if \<not> isReady bar then bar\<lparr>timers_Bar := [], cleanup_timer := None\<rparr>
      else bar\<lparr>timers_Bar := [\<lparr>handle = Suc (handles_given_Bar bar), delay = 800,
                               search_arg = query_Bar bar\<rparr>],
               isSearching_Bar := True, handles_given_Bar := Suc (handles_given_Bar bar),
               cleanup_timer := Some (Suc (handles_given_Bar bar))\<rparr>)"
  by (simp add: effect_cleanup_debounced [OF assms] search_effect_def Let_def
      setTimeout_Bar_def)

lemma rerun_keeps_debounced:
  "debounced_Bar bar \<Longrightarrow> debounced_Bar (search_effect ws (effect_cleanup bar))"
  by (simp add: rerun_debounced) (simp add: debounced_Bar_def)

lemma handleInputChange_Bar_debounced:
  assumes "debounced_Bar bar" and "v \<noteq> query_Bar bar"
  shows "handleInputChange_Bar ws v bar =
     (if trim ws v = []
      then bar\<lparr>query_Bar := v, timers_Bar := [], suggestions_Bar := [],
               isSearching_Bar := False, cleanup_timer := None\<rparr>
      else if \<not> isReady bar
      then bar\<lparr>query_Bar := v, timers_Bar := [], cleanup_timer := None\<rparr>
      else bar\<lparr>query_Bar := v,
               timers_Bar := [\<lparr>handle = Suc (handles_given_Bar bar), delay = 800,
                               search_arg = v\<rparr>],
               isSearching_Bar := True, handles_given_Bar := Suc (handles_given_Bar bar),
               cleanup_timer := Some (Suc (handles_given_Bar bar))\<rparr>)"
proof -
  have "debounced_Bar (bar\<lparr>query_Bar := v\<rparr>)"
    using assms(1) by (simp add: debounced_Bar_def)
  from rerun_debounced [OF this] assms(2) show ?thesis
    by (simp add: handleInputChange_Bar_def)
qed

lemma handleInputChange_Bar_keeps_debounced:
  assumes "debounced_Bar bar"
  shows "debounced_Bar (handleInputChange_Bar ws v bar)"
proof (cases "v = query_Bar bar")
  case True
  with assms show ?thesis
    by (simp add: handleInputChange_Bar_def)
next
  case False
  have "debounced_Bar (bar\<lparr>query_Bar := v\<rparr>)"
    using assms by (simp add: debounced_Bar_def)
  then show ?thesis
    using False by (simp add: handleInputChange_Bar_def rerun_keeps_debounced)
qed

lemma bar_step_keeps_debounced:
  assumes "debounced_Bar bar"
  shows "debounced_Bar (bar_step ws ev bar)"
proof (cases ev)
  case (BarInput v)
  then show ?thesis
    using assms by (simp add: bar_step_def handleInputChange_Bar_keeps_debounced)
next
  case (BarDependency ready)
  have "debounced_Bar (bar\<lparr>isReady := ready\<rparr>)"
    using assms by (simp add: debounced_Bar_def)
  then show ?thesis
    using BarDependency by (simp add: bar_step_def rerun_keeps_debounced)
next
  case (BarTimerFires h)
  then show ?thesis
    using assms
    by (auto simp: bar_step_def debounced_Bar_def clearTimeout_Bar_def distinct_map_filter)
next
  case (BarSearchFinishes found)
  then show ?thesis
    using assms by (simp add: bar_step_def debounced_Bar_def)
qed

lemma fold_bar_step_debounced:
  "debounced_Bar bar \<Longrightarrow> debounced_Bar (fold (bar_step ws) evs bar)"
  by (induction evs arbitrary: bar) (simp_all add: bar_step_keeps_debounced)

lemma bar_after_debounced: "debounced_Bar (bar_after ws evs)"
  unfolding bar_after_def
  by (rule fold_bar_step_debounced) (simp add: debounced_Bar_def initial_bar_def)

text \<open>
  C4. On the search page every input change cancels the search that was scheduled
  before and, when the new query is not empty or all white space, schedules one search
  for it 800 ms later; for an empty or white-space query it schedules none, clears the
  suggestions and marks searching as finished. In every state the page can reach at most
  one debounced search is pending. The search bar does the same for every change of the
  query while the Places service is ready; while it is not ready, a change to a query
  that is not blank cancels the pending search and schedules none (suggestions and the
  searching mark stay as they are). (The states are those in which \<open>debounced\<close> holds,
  which are all the states that can be reached.)
\<close>

theorem input_change_debounces:
  "(debounced page \<longrightarrow>
      handleInputChange ws v page =
        (if (\<forall>c \<in> set v. ws c)
         then page\<lparr>query_Page := v, selectedPlace := None, timers := [],
                   suggestions := [], isSearching := False\<rparr>
         else page\<lparr>query_Page := v, selectedPlace := None,
                   timers := [\<lparr>handle = Suc (handles_given page), delay = 800,
                               search_arg = v\<rparr>],
                   isSearching := True, handles_given := Suc (handles_given page),
                   debounceRef := Some (Suc (handles_given page))\<rparr>)) \<and>
   debounced (page_after ws key evs) \<and>
   length (timers (page_after ws key evs)) \<le> 1 \<and>
   (debounced_Bar bar \<and> v \<noteq> query_Bar bar \<longrightarrow>
      handleInputChange_Bar ws v bar =
        (if (\<forall>c \<in> set v. ws c)
         then bar\<lparr>query_Bar := v, timers_Bar := [], suggestions_Bar := [],
                  isSearching_Bar := False, cleanup_timer := None\<rparr>
         else if \<not> isReady bar
         then bar\<lparr>query_Bar := v, timers_Bar := [], cleanup_timer := None\<rparr>
         else bar\<lparr>query_Bar := v,
                  timers_Bar := [\<lparr>handle = Suc (handles_given_Bar bar), delay = 800,
                                  search_arg = v\<rparr>],
                  isSearching_Bar := True, handles_given_Bar := Suc (handles_given_Bar bar),
                  cleanup_timer := Some (Suc (handles_given_Bar bar))\<rparr>)) \<and>
   debounced_Bar (bar_after ws bar_evs) \<and>
   length (timers_Bar (bar_after ws bar_evs)) \<le> 1"
  using handleInputChange_debounced [of page ws v]
    handleInputChange_Bar_debounced [of bar v ws]
    page_after_debounced [of ws key evs] bar_after_debounced [of ws bar_evs]
    debounced_short [of "page_after ws key evs"] debounced_Bar_short [of "bar_after ws bar_evs"]
  by (simp add: trim_empty_iff)

theorem input_change_debounces_witness:
  "timers (page_after is_space ''key'' [InputChange ''ca'']) =
     [\<lparr>handle = 1, delay = 800, search_arg = ''ca''\<rparr>] \<and>
   timers (handleInputChange is_space ''cafe''
             (page_after is_space ''key'' [InputChange ''ca''])) =
     [\<lparr>handle = 2, delay = 800, search_arg = ''cafe''\<rparr>] \<and>
   timers (handleInputChange is_space ''  ''
             (page_after is_space ''key'' [InputChange ''ca''])) = [] \<and>
   suggestions (handleInputChange is_space ''  ''
             (page_after is_space ''key'' [InputChange ''ca''])) = [] \<and>
   \<not> isSearching (handleInputChange is_space ''  ''
             (page_after is_space ''key'' [InputChange ''ca''])) \<and>
   timers_Bar (handleInputChange_Bar is_space ''cafe''
             (bar_after is_space [BarDependency True, BarInput ''ca''])) =
     [\<lparr>handle = 2, delay = 800, search_arg = ''cafe''\<rparr>]"
proof -
  have page: "page_after is_space ''key'' [InputChange ''ca''] =
      initial_page\<lparr>query_Page := ''ca'',
        timers := [\<lparr>handle = 1, delay = 800, search_arg = ''ca''\<rparr>],
        isSearching := True, handles_given := 1, debounceRef := Some 1\<rparr>"
    by (simp add: page_after_def page_step_def handleInputChange_def initial_page_def
        trim_def is_space_def setTimeout_Page_def Let_def)
  have bar: "bar_after is_space [BarDependency True, BarInput ''ca''] =
      initial_bar\<lparr>query_Bar := ''ca'', isReady := True,
        timers_Bar := [\<lparr>handle = 1, delay = 800, search_arg = ''ca''\<rparr>],
        isSearching_Bar := True, handles_given_Bar := 1, cleanup_timer := Some 1\<rparr>"
    by (simp add: bar_after_def bar_step_def handleInputChange_Bar_def search_effect_def
        effect_cleanup_def initial_bar_def trim_def is_space_def setTimeout_Bar_def Let_def)
  show ?thesis
    using input_change_debounces
      [where page = "page_after is_space ''key'' [InputChange ''ca'']" and ws = is_space
         and v = "''cafe''" and key = "''key''" and evs = "[InputChange ''ca'']"
         and bar = "bar_after is_space [BarDependency True, BarInput ''ca'']"
         and bar_evs = "[BarDependency True, BarInput ''ca'']"]
      input_change_debounces
      [where page = "page_after is_space ''key'' [InputChange ''ca'']" and ws = is_space
         and v = "''  ''" and key = "''key''" and evs = "[InputChange ''ca'']"
         and bar = "bar_after is_space [BarDependency True, BarInput ''ca'']"
         and bar_evs = "[BarDependency True, BarInput ''ca'']"]
    by (simp add: page bar is_space_def initial_page_def initial_bar_def)
qed

text \<open>
  Not every input change schedules a search: in the search bar, while the Places
  service is not ready, the effect returns before it sets a timer.
\<close>

theorem searchBar_not_ready_schedules_nothing:
  "trim is_space ''cafe'' = ''cafe'' \<and>
   query_Bar initial_bar = [] \<and>
   \<not> isReady initial_bar \<and>
   timers_Bar (handleInputChange_Bar is_space ''cafe'' initial_bar) = [] \<and>
   query_Bar (handleInputChange_Bar is_space ''cafe'' initial_bar) = ''cafe''"
  by (simp add: handleInputChange_Bar_def search_effect_def effect_cleanup_def initial_bar_def
      trim_def is_space_def)

subsection \<open>The interactive map\<close>

text \<open>
  C3. A step of the smoothing animation from the smoothed position \<open>c\<close> towards the
  target \<open>t\<close> gives \<open>c + (t - c) * 0.15\<close> in each coordinate and requests the next
  frame, except that when the new position is closer to the target than 0.0000001 (the
  sum of the two coordinate distances) the smoothed position becomes the target itself
  and no frame is requested, so the animation stops. (Numbers are real numbers here.)
\<close>

theorem smooth_update_interpolates:
  "smooth_update t (Some c) =
     (let new = \<lparr>lat = lat c + (lat t - lat c) * 0.15, lng = lng c + (lng t - lng c) * 0.15\<rparr>
      in if \<bar>lat t - lat new\<bar> + \<bar>lng t - lng new\<bar> < 0.0000001 then (t, False)
         else (new, True)) \<and>
   animate (m\<lparr>targetLocationRef := Some t, smoothLocation := Some c\<rparr>) =
     m\<lparr>targetLocationRef := Some t,
       smoothLocation := Some (fst (smooth_update t (Some c))),
       pending_frame := snd (smooth_update t (Some c))\<rparr>"
  by (simp add: smooth_update_def animate_def Let_def)

theorem smooth_update_interpolates_witness:
  "smooth_update \<lparr>lat = 1, lng = 1\<rparr> (Some \<lparr>lat = 0, lng = 0\<rparr>) =
     (\<lparr>lat = 0.15, lng = 0.15\<rparr>, True) \<and>
   smooth_update \<lparr>lat = 1, lng = 1\<rparr> (Some \<lparr>lat = 0.99999999, lng = 1\<rparr>) =
     (\<lparr>lat = 1, lng = 1\<rparr>, False) \<and>
   animate (initial_map\<lparr>targetLocationRef := Some \<lparr>lat = 1, lng = 1\<rparr>,
                         smoothLocation := Some \<lparr>lat = 0, lng = 0\<rparr>\<rparr>) =
     initial_map\<lparr>targetLocationRef := Some \<lparr>lat = 1, lng = 1\<rparr>,
                 smoothLocation := Some \<lparr>lat = 0.15, lng = 0.15\<rparr>, pending_frame := True\<rparr>"
  using smooth_update_interpolates [of "\<lparr>lat = 1, lng = 1\<rparr>" "\<lparr>lat = 0, lng = 0\<rparr>" initial_map]
    smooth_update_interpolates [of "\<lparr>lat = 1, lng = 1\<rparr>" "\<lparr>lat = 0.99999999, lng = 1\<rparr>"
      initial_map]
  by (simp add: Let_def)

text \<open>
  C5. For an absolute orientation event whose \<open>alpha\<close> is not null, the heading becomes
  \<open>(360 - alpha) % 360\<close>. For every \<open>alpha\<close> from 0 to 360 this value is at least 0 and
  less than 360, and it is the angle \<open>360 - alpha\<close> measured clockwise, with 0 for an
  \<open>alpha\<close> of 0. An event without \<open>alpha\<close> leaves the heading as it is.
\<close>

theorem absolute_orientation_heading:
  "heading (handleAbsoluteOrientation (Some alpha) m) = Some (js_rem (360 - alpha) 360) \<and>
   hasOrientationSensor (handleAbsoluteOrientation (Some alpha) m) \<and>
   handleAbsoluteOrientation None m = m\<lparr>absoluteSupported := True\<rparr> \<and>
   (0 \<le> alpha \<and> alpha \<le> 360 \<longrightarrow>
      0 \<le> js_rem (360 - alpha) 360 \<and> js_rem (360 - alpha) 360 < 360 \<and>
      js_rem (360 - alpha) 360 = (if alpha = 0 then 0 else 360 - alpha))"
  using js_rem_heading [of alpha]
  by (auto simp: handleAbsoluteOrientation_def Let_def)

theorem absolute_orientation_heading_witness:
  "heading (handleAbsoluteOrientation (Some 90) initial_map) = Some 270 \<and>
   heading (handleAbsoluteOrientation (Some 0) initial_map) = Some 0 \<and>
   heading (handleAbsoluteOrientation (Some 360) initial_map) = Some 0"
  using absolute_orientation_heading [of 90 initial_map]
    absolute_orientation_heading [of 0 initial_map]
    absolute_orientation_heading [of 360 initial_map]
  by simp

end
